theory Spec2Isabelle
  imports Complex_Main
begin

section \<open>JavaScript numbers\<close>

text \<open>
  The physics engine computes with JavaScript numbers, the binary64 values of IEEE 754.
  A finite number is embedded by its exact real value; there are two zeros, two
  infinities and NaN. An arithmetic operation computes the exact real result and
  rounds it to the nearest binary64 value, ties to even, with overflow to an infinity
  and underflow through the subnormal numbers to a signed zero.
\<close>

datatype jsnum = Num real | NegZero | PosInf | NegInf | NaN

text \<open>
  Rounding to nearest, ties to even. A binary64 value has 53 significant bits and an
  exponent of at least \<open>-1022\<close>: around \<open>x\<close> the representable values are the integer
  multiples of \<open>ulp x\<close>.
\<close>

definition expo :: "real \<Rightarrow> int" where
  "expo x = max \<lfloor>log 2 \<bar>x\<bar>\<rfloor> (- 1022)"

definition ulp :: "real \<Rightarrow> real" where
  "ulp x = 2 powr (of_int (expo x) - 52)"

definition rne :: "real \<Rightarrow> int" where
  "rne r = (let f = \<lfloor>r\<rfloor> in
            if r - of_int f < 1 / 2 then f
            else if 1 / 2 < r - of_int f then f + 1
            else if even f then f else f + 1)"

definition round64 :: "real \<Rightarrow> real" where
  "round64 x = (if x = 0 then 0 else of_int (rne (x / ulp x)) * ulp x)"

fun is_fin :: "jsnum \<Rightarrow> bool" where
  "is_fin (Num x) = True"
| "is_fin NegZero = True"
| "is_fin a = False"

fun is_inf :: "jsnum \<Rightarrow> bool" where
  "is_inf PosInf = True"
| "is_inf NegInf = True"
| "is_inf a = False"

text \<open>The real value of a finite number, and the sign bit.\<close>

fun val :: "jsnum \<Rightarrow> real" where
  "val (Num x) = x"
| "val a = 0"

fun sign_neg :: "jsnum \<Rightarrow> bool" where
  "sign_neg (Num x) = (x < 0)"
| "sign_neg NegZero = True"
| "sign_neg NegInf = True"
| "sign_neg a = False"

definition is_zero :: "jsnum \<Rightarrow> bool" where
  "is_zero a = (is_fin a \<and> val a = 0)"

definition infinity :: "bool \<Rightarrow> jsnum" where
  "infinity neg = (if neg then NegInf else PosInf)"

definition signed_zero :: "bool \<Rightarrow> jsnum" where
  "signed_zero neg = (if neg then NegZero else Num 0)"

text \<open>The finite number of value \<open>r\<close>; a zero takes the sign \<open>neg\<close>.\<close>

definition finz :: "bool \<Rightarrow> real \<Rightarrow> jsnum" where
  "finz neg r = (if r = 0 then signed_zero neg else Num r)"

text \<open>
  The number that an operation with the exact result \<open>r\<close> returns; \<open>neg\<close> is the sign of
  the result when \<open>r\<close> is zero.
\<close>

definition fl :: "bool \<Rightarrow> real \<Rightarrow> jsnum" where
  "fl neg r =
     (let x = round64 r
      in if 2 ^ 1024 \<le> \<bar>x\<bar> then infinity (r < 0)
         else finz (if r = 0 then neg else r < 0) x)"

text \<open>A decimal literal of the source denotes the nearest number.\<close>

definition lit :: "real \<Rightarrow> jsnum" where
  "lit r = fl False r"

definition Math_PI :: jsnum where
  "Math_PI = lit pi"

fun js_neg :: "jsnum \<Rightarrow> jsnum" where
  "js_neg (Num x) = finz True (- x)"
| "js_neg NegZero = Num 0"
| "js_neg PosInf = NegInf"
| "js_neg NegInf = PosInf"
| "js_neg NaN = NaN"

definition js_add :: "jsnum \<Rightarrow> jsnum \<Rightarrow> jsnum" where
  "js_add a b =
     (if a = NaN \<or> b = NaN then NaN
      else if is_inf a then (if is_inf b \<and> a \<noteq> b then NaN else a)
      else if is_inf b then b
      else fl (sign_neg a \<and> sign_neg b) (val a + val b))"

definition js_sub :: "jsnum \<Rightarrow> jsnum \<Rightarrow> jsnum" where
  "js_sub a b = js_add a (js_neg b)"

definition js_mul :: "jsnum \<Rightarrow> jsnum \<Rightarrow> jsnum" where
  "js_mul a b =
     (if a = NaN \<or> b = NaN then NaN
      else if is_inf a \<or> is_inf b
        then (if is_zero a \<or> is_zero b then NaN else infinity (sign_neg a \<noteq> sign_neg b))
      else fl (sign_neg a \<noteq> sign_neg b) (val a * val b))"

definition js_div :: "jsnum \<Rightarrow> jsnum \<Rightarrow> jsnum" where
  "js_div a b =
     (if a = NaN \<or> b = NaN then NaN
      else if is_inf a
        then (if is_inf b then NaN else infinity (sign_neg a \<noteq> sign_neg b))
      else if is_inf b then signed_zero (sign_neg a \<noteq> sign_neg b)
      else if is_zero b
        then (if is_zero a then NaN else infinity (sign_neg a \<noteq> sign_neg b))
      else fl (sign_neg a \<noteq> sign_neg b) (val a / val b))"

text \<open>
  \<open>a % b\<close>: the remainder of the division truncated towards zero. It is exact and takes
  the sign of the dividend.
\<close>

definition trunc :: "real \<Rightarrow> int" where
  "trunc r = (if 0 \<le> r then \<lfloor>r\<rfloor> else \<lceil>r\<rceil>)"

definition js_rem :: "jsnum \<Rightarrow> jsnum \<Rightarrow> jsnum" where
  "js_rem a b =
     (if a = NaN \<or> b = NaN \<or> is_inf a \<or> is_zero b then NaN
      else if is_inf b then a
      else finz (sign_neg a) (val a - val b * of_int (trunc (val a / val b))))"

definition js_lt :: "jsnum \<Rightarrow> jsnum \<Rightarrow> bool" where
  "js_lt a b =
     (a \<noteq> NaN \<and> b \<noteq> NaN \<and>
      (if a = NegInf then b \<noteq> NegInf
       else if b = PosInf then a \<noteq> PosInf
       else if a = PosInf \<or> b = NegInf then False
       else val a < val b))"

definition js_le :: "jsnum \<Rightarrow> jsnum \<Rightarrow> bool" where
  "js_le a b =
     (a \<noteq> NaN \<and> b \<noteq> NaN \<and>
      (a = NegInf \<or> b = PosInf \<or> (is_fin a \<and> is_fin b \<and> val a \<le> val b)))"

definition js_gt :: "jsnum \<Rightarrow> jsnum \<Rightarrow> bool" where
  "js_gt a b = js_lt b a"

definition js_ge :: "jsnum \<Rightarrow> jsnum \<Rightarrow> bool" where
  "js_ge a b = js_le b a"

fun js_abs :: "jsnum \<Rightarrow> jsnum" where
  "js_abs (Num x) = Num \<bar>x\<bar>"
| "js_abs NegZero = Num 0"
| "js_abs PosInf = PosInf"
| "js_abs NegInf = PosInf"
| "js_abs NaN = NaN"

text \<open>\<open>Math.sqrt\<close>, which the engines compute by the correctly rounded square root of
  IEEE 754.\<close>

fun js_sqrt :: "jsnum \<Rightarrow> jsnum" where
  "js_sqrt (Num x) = (if x < 0 then NaN else Num (round64 (sqrt x)))"
| "js_sqrt NegZero = NegZero"
| "js_sqrt PosInf = PosInf"
| "js_sqrt NegInf = NaN"
| "js_sqrt NaN = NaN"

section \<open>Errors\<close>

text \<open>
  A \<open>throw new Error(msg)\<close> of the source is the value \<open>Error msg\<close>; \<open>TypeError\<close> is
  the error the language itself raises.
\<close>

datatype error = Error string | TypeError string

section \<open>The language runtime\<close>

text \<open>
  A parameter object is a map from property names to numbers.
\<close>

type_synonym params = "string \<rightharpoonup> jsnum"

text \<open>
  Three things are decided by the language runtime and not by this program; they are
  the parameter \<open>host\<close> of the embedding. \<open>Math.sin\<close> and \<open>Math.cos\<close> return an
  approximation that the language leaves to the implementation, for a finite argument
  other than zero. A member of \<open>Object.prototype\<close> that is called as
  \<open>forcingFn(t, params)\<close> contributes some number to the sum \<open>-b*v - k*y + force\<close>, or
  throws.
\<close>

record host =
  Math_sin :: "real \<Rightarrow> jsnum"
  Math_cos :: "real \<Rightarrow> jsnum"
  call_inherited :: "string \<Rightarrow> jsnum \<Rightarrow> params \<Rightarrow> error + jsnum"

fun js_sin :: "host \<Rightarrow> jsnum \<Rightarrow> jsnum" where
  "js_sin h (Num x) = (if x = 0 then Num 0 else Math_sin h x)"
| "js_sin h NegZero = NegZero"
| "js_sin h a = NaN"

fun js_cos :: "host \<Rightarrow> jsnum \<Rightarrow> jsnum" where
  "js_cos h (Num x) = (if x = 0 then Num 1 else Math_cos h x)"
| "js_cos h NegZero = Num 1"
| "js_cos h a = NaN"

section \<open>The integrator (integrators.js)\<close>

record state =
  st_y :: jsnum
  st_v :: jsnum
  st_t :: jsnum

record derivatives =
  dydt :: jsnum
  dvdt :: jsnum

text \<open>
  \<open>rk4Step(state, derivativeFn, dt)\<close>. The callback may throw; an exception of the
  callback leaves \<open>rk4Step\<close> at that call.
\<close>

definition rk4Step :: "state \<Rightarrow> (state \<Rightarrow> error + derivatives) \<Rightarrow> jsnum \<Rightarrow> error + state" where
  "rk4Step state derivativeFn dt =
     (let y = st_y state; v = st_v state; t = st_t state in
      case derivativeFn \<lparr>st_y = y, st_v = v, st_t = t\<rparr> of
        Inl e \<Rightarrow> Inl e
      | Inr k1 \<Rightarrow>
      (case derivativeFn
              \<lparr>st_y = js_add y (js_mul (js_mul (Num 0.5) (dydt k1)) dt),
               st_v = js_add v (js_mul (js_mul (Num 0.5) (dvdt k1)) dt),
               st_t = js_add t (js_mul (Num 0.5) dt)\<rparr> of
        Inl e \<Rightarrow> Inl e
      | Inr k2 \<Rightarrow>
      (case derivativeFn
              \<lparr>st_y = js_add y (js_mul (js_mul (Num 0.5) (dydt k2)) dt),
               st_v = js_add v (js_mul (js_mul (Num 0.5) (dvdt k2)) dt),
               st_t = js_add t (js_mul (Num 0.5) dt)\<rparr> of
        Inl e \<Rightarrow> Inl e
      | Inr k3 \<Rightarrow>
      (case derivativeFn
              \<lparr>st_y = js_add y (js_mul (dydt k3) dt),
               st_v = js_add v (js_mul (dvdt k3) dt),
               st_t = js_add t dt\<rparr> of
        Inl e \<Rightarrow> Inl e
      | Inr k4 \<Rightarrow>
        (let dydt' = js_div (js_add (js_add (js_add (dydt k1) (js_mul (Num 2) (dydt k2)))
                                      (js_mul (Num 2) (dydt k3))) (dydt k4)) (Num 6);
             dvdt' = js_div (js_add (js_add (js_add (dvdt k1) (js_mul (Num 2) (dvdt k2)))
                                      (js_mul (Num 2) (dvdt k3))) (dvdt k4)) (Num 6)
         in Inr \<lparr>st_y = js_add y (js_mul dydt' dt),
                 st_v = js_add v (js_mul dvdt' dt),
                 st_t = js_add t dt\<rparr>)))))"

definition eulerStep :: "state \<Rightarrow> (state \<Rightarrow> error + derivatives) \<Rightarrow> jsnum \<Rightarrow> error + state" where
  "eulerStep state derivativeFn dt =
     (let y = st_y state; v = st_v state; t = st_t state in
      case derivativeFn \<lparr>st_y = y, st_v = v, st_t = t\<rparr> of
        Inl e \<Rightarrow> Inl e
      | Inr derivs \<Rightarrow>
          Inr \<lparr>st_y = js_add y (js_mul (dydt derivs) dt),
               st_v = js_add v (js_mul (dvdt derivs) dt),
               st_t = js_add t dt\<rparr>)"

text \<open>
  The six stages of the RK4 step as the specification words them, on triples
  \<open>(y, v, t)\<close> and pairs \<open>(dy, dv)\<close>, for a derivative function that returns. The
  product \<open>1/2 dt k\<close> of a midpoint stage is taken as \<open>dt * (k / 2)\<close>.
\<close>

definition rk4_formula ::
  "(jsnum \<times> jsnum \<times> jsnum \<Rightarrow> jsnum \<times> jsnum) \<Rightarrow> jsnum \<times> jsnum \<times> jsnum \<Rightarrow> jsnum
     \<Rightarrow> jsnum \<times> jsnum \<times> jsnum" where
  "rk4_formula deriv s dt =
     (case s of (y, v, t) \<Rightarrow>
      let half_dt = js_div dt (Num 2);
          k1 = deriv (y, v, t);
          k2 = deriv (js_add y (js_mul dt (js_div (fst k1) (Num 2))),
                      js_add v (js_mul dt (js_div (snd k1) (Num 2))),
                      js_add t half_dt);
          k3 = deriv (js_add y (js_mul dt (js_div (fst k2) (Num 2))),
                      js_add v (js_mul dt (js_div (snd k2) (Num 2))),
                      js_add t half_dt);
          k4 = deriv (js_add y (js_mul dt (fst k3)), js_add v (js_mul dt (snd k3)),
                      js_add t dt);
          combined_dy = js_div (js_add (js_add (js_add (fst k1) (js_mul (Num 2) (fst k2)))
                                   (js_mul (Num 2) (fst k3))) (fst k4)) (Num 6);
          combined_dv = js_div (js_add (js_add (js_add (snd k1) (js_mul (Num 2) (snd k2)))
                                   (js_mul (Num 2) (snd k3))) (snd k4)) (Num 6)
      in (js_add y (js_mul dt combined_dy), js_add v (js_mul dt combined_dv), js_add t dt))"

definition state_triple :: "state \<Rightarrow> jsnum \<times> jsnum \<times> jsnum" where
  "state_triple s = (st_y s, st_v s, st_t s)"

definition triple_state :: "jsnum \<times> jsnum \<times> jsnum \<Rightarrow> state" where
  "triple_state p = (case p of (y, v, t) \<Rightarrow> \<lparr>st_y = y, st_v = v, st_t = t\<rparr>)"

definition pair_derivatives :: "jsnum \<times> jsnum \<Rightarrow> derivatives" where
  "pair_derivatives p = \<lparr>dydt = fst p, dvdt = snd p\<rparr>"

section \<open>The forcing library (forcingFunctions.js)\<close>

text \<open>
  A destructuring pattern \<open>{ amplitude = 1.0 }\<close> reads the property of the parameter
  object and takes the default when it is absent.
\<close>

definition param :: "params \<Rightarrow> string \<Rightarrow> jsnum \<Rightarrow> jsnum" where
  "param ps key dflt = (case ps key of None \<Rightarrow> dflt | Some x \<Rightarrow> x)"

definition none :: "jsnum \<Rightarrow> jsnum" where
  "none t = Num 0"

definition "constant" :: "jsnum \<Rightarrow> params \<Rightarrow> jsnum" where
  "constant t ps = (let force = param ps ''force'' (Num 1) in force)"

definition sine :: "host \<Rightarrow> jsnum \<Rightarrow> params \<Rightarrow> jsnum" where
  "sine h t ps =
     (let amplitude = param ps ''amplitude'' (Num 1);
          frequency = param ps ''frequency'' (Num 1);
          omega = js_mul (js_mul (Num 2) Math_PI) frequency
      in js_mul amplitude (js_sin h (js_mul omega t)))"

definition cosine :: "host \<Rightarrow> jsnum \<Rightarrow> params \<Rightarrow> jsnum" where
  "cosine h t ps =
     (let amplitude = param ps ''amplitude'' (Num 1);
          frequency = param ps ''frequency'' (Num 1);
          omega = js_mul (js_mul (Num 2) Math_PI) frequency
      in js_mul amplitude (js_cos h (js_mul omega t)))"

text \<open>The Heaviside preset \<open>step(t, params)\<close> of the library (the name \<open>step\<close> is kept
  for the method of the system).\<close>

definition step_preset :: "jsnum \<Rightarrow> params \<Rightarrow> jsnum" where
  "step_preset t ps =
     (let amplitude = param ps ''amplitude'' (Num 1);
          stepTime = param ps ''stepTime'' (Num 0)
      in if js_ge t stepTime then amplitude else Num 0)"

definition square :: "jsnum \<Rightarrow> params \<Rightarrow> jsnum" where
  "square t ps =
     (let amplitude = param ps ''amplitude'' (Num 1);
          frequency = param ps ''frequency'' (Num 1);
          period = js_div (Num 1) frequency;
          phase = js_div (js_rem t period) period
      in js_mul amplitude (if js_lt phase (Num 0.5) then Num 1 else Num (- 1)))"

definition impulse :: "jsnum \<Rightarrow> params \<Rightarrow> jsnum" where
  "impulse t ps =
     (let amplitude = param ps ''amplitude'' (Num 1);
          impulseTime = param ps ''impulseTime'' (Num 0);
          width = param ps ''width'' (lit 0.01);
          inImpulse = (js_ge t impulseTime \<and> js_lt t (js_add impulseTime width))
      in if inImpulse then js_div amplitude width else Num 0)"

text \<open>
  The values that a lookup \<open>presets[name]\<close> can yield: one of the seven functions
  above, or a member that the object literal inherits from \<open>Object.prototype\<close>.
\<close>

datatype fn =
    none_fn | constant_fn | sine_fn | cosine_fn | step_fn | square_fn | impulse_fn
  | prototype_member string

definition presets_own :: "(string \<times> fn) list" where
  "presets_own =
     [(''none'', none_fn), (''constant'', constant_fn), (''sine'', sine_fn),
      (''cosine'', cosine_fn), (''step'', step_fn), (''square'', square_fn),
      (''impulse'', impulse_fn)]"

text \<open>
  \<open>presets\<close> and \<open>defaultParams\<close> are object literals, so a property lookup that
  finds no own property continues in \<open>Object.prototype\<close>. These are the property names
  of \<open>Object.prototype\<close> in the language standard; each of them holds a function or an
  object, which is truthy.
\<close>

definition object_prototype_names :: "string list" where
  "object_prototype_names =
     [''constructor'', ''hasOwnProperty'', ''isPrototypeOf'', ''propertyIsEnumerable'',
      ''toLocaleString'', ''toString'', ''valueOf'', ''__proto__'',
      ''__defineGetter__'', ''__defineSetter__'', ''__lookupGetter__'',
      ''__lookupSetter__'']"

text \<open>\<open>presets[name]\<close>; \<open>None\<close> is \<open>undefined\<close>.\<close>

definition presets :: "string \<Rightarrow> fn option" where
  "presets name =
     (case map_of presets_own name of
        Some f \<Rightarrow> Some f
      | None \<Rightarrow>
          if name \<in> set object_prototype_names then Some (prototype_member name)
          else None)"

definition defaultParams_own :: "(string \<times> params) list" where
  "defaultParams_own =
     [(''none'', Map.empty),
      (''constant'', [''force'' \<mapsto> Num 1]),
      (''sine'', [''amplitude'' \<mapsto> Num 1, ''frequency'' \<mapsto> Num 1]),
      (''cosine'', [''amplitude'' \<mapsto> Num 1, ''frequency'' \<mapsto> Num 1]),
      (''step'', [''amplitude'' \<mapsto> Num 1, ''stepTime'' \<mapsto> Num 1]),
      (''square'', [''amplitude'' \<mapsto> Num 1, ''frequency'' \<mapsto> Num 1]),
      (''impulse'', [''amplitude'' \<mapsto> Num 1, ''impulseTime'' \<mapsto> Num 1,
                     ''width'' \<mapsto> lit 0.01])]"

text \<open>
  The properties that the spread \<open>{ ...defaultParams[name] }\<close> copies: those of the
  own entry; a member inherited from \<open>Object.prototype\<close> and \<open>undefined\<close> have no own
  enumerable property and contribute nothing.
\<close>

definition defaultParams :: "string \<Rightarrow> params" where
  "defaultParams name =
     (case map_of defaultParams_own name of Some d \<Rightarrow> d | None \<Rightarrow> Map.empty)"

definition getForcingFunction :: "string \<Rightarrow> error + fn" where
  "getForcingFunction name =
     (case presets name of
        None \<Rightarrow> Inl (Error (''Unknown forcing function: '' @ name))
      | Some f \<Rightarrow> Inr f)"

text \<open>The call \<open>this.forcingFn(t, this.forcingParams)\<close>.\<close>

fun call_fn :: "host \<Rightarrow> fn \<Rightarrow> jsnum \<Rightarrow> params \<Rightarrow> error + jsnum" where
  "call_fn h none_fn t ps = Inr (none t)"
| "call_fn h constant_fn t ps = Inr (constant t ps)"
| "call_fn h sine_fn t ps = Inr (sine h t ps)"
| "call_fn h cosine_fn t ps = Inr (cosine h t ps)"
| "call_fn h step_fn t ps = Inr (step_preset t ps)"
| "call_fn h square_fn t ps = Inr (square t ps)"
| "call_fn h impulse_fn t ps = Inr (impulse t ps)"
| "call_fn h (prototype_member name) t ps = call_inherited h name t ps"

section \<open>The system (class MassSpringSystem)\<close>

text \<open>
  The state of a system is an object of its own, held by reference in \<open>this.state\<close>
  and copied by \<open>{ ...this.state }\<close>. The store is the list of the state objects
  allocated so far; the address of an object is its index, and a new object is
  appended.
\<close>

type_synonym store = "state list"

record MassSpringSystem =
  sys_m :: jsnum
  sys_b :: jsnum
  sys_k :: jsnum
  sys_y0 :: jsnum
  sys_v0 :: jsnum
  sys_state :: nat
  forcingName :: string
  forcingFn :: fn
  forcingParams :: params

text \<open>The configuration object of the constructor; \<open>None\<close> is an absent property.\<close>

record config =
  cfg_m :: "jsnum option"
  cfg_b :: "jsnum option"
  cfg_k :: "jsnum option"
  cfg_y0 :: "jsnum option"
  cfg_v0 :: "jsnum option"

definition dflt :: "jsnum option \<Rightarrow> jsnum \<Rightarrow> jsnum" where
  "dflt x d = (case x of None \<Rightarrow> d | Some a \<Rightarrow> a)"

definition "constructor" :: "config \<Rightarrow> store \<Rightarrow> error + (store \<times> MassSpringSystem)" where
  "constructor c \<sigma> =
     (let m = dflt (cfg_m c) (Num 1);
          b = dflt (cfg_b c) (lit 0.1);
          k = dflt (cfg_k c) (Num 1);
          y0 = dflt (cfg_y0 c) (Num 1);
          v0 = dflt (cfg_v0 c) (Num 0)
      in if js_le m (Num 0) then Inl (Error ''Mass must be positive'')
         else if js_lt b (Num 0) then Inl (Error ''Damping coefficient must be non-negative'')
         else if js_lt k (Num 0) then Inl (Error ''Spring constant must be non-negative'')
         else Inr (\<sigma> @ [\<lparr>st_y = y0, st_v = v0, st_t = Num 0\<rparr>],
                   \<lparr>sys_m = m, sys_b = b, sys_k = k, sys_y0 = y0, sys_v0 = v0,
                    sys_state = length \<sigma>,
                    forcingName = ''none'', forcingFn = none_fn,
                    forcingParams = Map.empty\<rparr>))"

definition computeDerivatives :: "host \<Rightarrow> MassSpringSystem \<Rightarrow> state \<Rightarrow> error + derivatives" where
  "computeDerivatives h this state =
     (let y = st_y state; v = st_v state; t = st_t state;
          m = sys_m this; b = sys_b this; k = sys_k this
      in case call_fn h (forcingFn this) t (forcingParams this) of
           Inl e \<Rightarrow> Inl e
         | Inr force \<Rightarrow>
             (let dydt' = v;
                  dvdt' = js_div (js_add (js_sub (js_mul (js_neg b) v) (js_mul k y)) force) m
              in Inr \<lparr>dydt = dydt', dvdt = dvdt'\<rparr>))"

text \<open>
  \<open>step(dt)\<close> returns the address of the copy, or the exception; the second component
  is the store and the system after the call.
\<close>

definition step ::
  "host \<Rightarrow> jsnum \<Rightarrow> store \<times> MassSpringSystem \<Rightarrow> (error + nat) \<times> store \<times> MassSpringSystem" where
  "step h dt w =
     (case w of (\<sigma>, this) \<Rightarrow>
      (case rk4Step (\<sigma> ! sys_state this) (computeDerivatives h this) dt of
        Inl e \<Rightarrow> (Inl e, \<sigma>, this)
      | Inr s' \<Rightarrow>
          (let \<sigma>1 = \<sigma> @ [s'];
               this' = this\<lparr>sys_state := length \<sigma>\<rparr>;
               copy = \<sigma>1 ! sys_state this'
           in (Inr (length \<sigma>1), \<sigma>1 @ [copy], this'))))"

text \<open>The argument of \<open>setParameters\<close>; \<open>None\<close> is \<open>undefined\<close>.\<close>

record param_update =
  upd_m :: "jsnum option"
  upd_b :: "jsnum option"
  upd_k :: "jsnum option"

text \<open>The three blocks of \<open>setParameters\<close>, in the order of the source.\<close>

definition set_m :: "jsnum option \<Rightarrow> MassSpringSystem \<Rightarrow> error + MassSpringSystem" where
  "set_m x this =
     (case x of
        None \<Rightarrow> Inr this
      | Some m \<Rightarrow>
          if js_le m (Num 0) then Inl (Error ''Mass must be positive'')
          else Inr (this\<lparr>sys_m := m\<rparr>))"

definition set_b :: "jsnum option \<Rightarrow> MassSpringSystem \<Rightarrow> error + MassSpringSystem" where
  "set_b x this =
     (case x of
        None \<Rightarrow> Inr this
      | Some b \<Rightarrow>
          if js_lt b (Num 0) then Inl (Error ''Damping coefficient must be non-negative'')
          else Inr (this\<lparr>sys_b := b\<rparr>))"

definition set_k :: "jsnum option \<Rightarrow> MassSpringSystem \<Rightarrow> error + MassSpringSystem" where
  "set_k x this =
     (case x of
        None \<Rightarrow> Inr this
      | Some k \<Rightarrow>
          if js_lt k (Num 0) then Inl (Error ''Spring constant must be non-negative'')
          else Inr (this\<lparr>sys_k := k\<rparr>))"

text \<open>
  \<open>setParameters({ m, b, k })\<close> returns the exception it throws, if any, and the system
  as the call leaves it.
\<close>

definition setParameters :: "param_update \<Rightarrow> MassSpringSystem \<Rightarrow> error option \<times> MassSpringSystem" where
  "setParameters p this =
     (case set_m (upd_m p) this of
        Inl e \<Rightarrow> (Some e, this)
      | Inr this1 \<Rightarrow>
      (case set_b (upd_b p) this1 of
        Inl e \<Rightarrow> (Some e, this1)
      | Inr this2 \<Rightarrow>
      (case set_k (upd_k p) this2 of
        Inl e \<Rightarrow> (Some e, this2)
      | Inr this3 \<Rightarrow> (None, this3))))"

text \<open>\<open>setForcing(name, params = {})\<close>; an absent second argument is \<open>None\<close>.\<close>

definition setForcing ::
  "string \<Rightarrow> params option \<Rightarrow> MassSpringSystem \<Rightarrow> error option \<times> MassSpringSystem" where
  "setForcing name params_arg this =
     (let ps = (case params_arg of None \<Rightarrow> Map.empty | Some p \<Rightarrow> p)
      in case presets name of
           None \<Rightarrow> (Some (Error (''Unknown forcing function: '' @ name)), this)
         | Some f \<Rightarrow>
             (None, this\<lparr>forcingName := name, forcingFn := f,
                          forcingParams := defaultParams name ++ ps\<rparr>))"

text \<open>\<open>getState()\<close> allocates the copy and returns its address.\<close>

definition getState :: "store \<times> MassSpringSystem \<Rightarrow> nat \<times> store" where
  "getState w = (case w of (\<sigma>, this) \<Rightarrow> (length \<sigma>, \<sigma> @ [\<sigma> ! sys_state this]))"

definition getParameters :: "MassSpringSystem \<Rightarrow> jsnum \<times> jsnum \<times> jsnum" where
  "getParameters this = (sys_m this, sys_b this, sys_k this)"

definition getForcing :: "MassSpringSystem \<Rightarrow> string \<times> params" where
  "getForcing this = (forcingName this, forcingParams this)"

definition reset :: "store \<times> MassSpringSystem \<Rightarrow> store \<times> MassSpringSystem" where
  "reset w =
     (case w of (\<sigma>, this) \<Rightarrow>
        (\<sigma> @ [\<lparr>st_y = sys_y0 this, st_v = sys_v0 this, st_t = Num 0\<rparr>],
         this\<lparr>sys_state := length \<sigma>\<rparr>))"

datatype regime = underdamped | critical | overdamped

record system_properties =
  omega0 :: jsnum
  f0 :: jsnum
  T0 :: jsnum
  zeta :: jsnum
  regime :: regime
  omegaD :: jsnum
  fD :: jsnum
  Q :: jsnum

definition getSystemProperties :: "MassSpringSystem \<Rightarrow> system_properties" where
  "getSystemProperties this =
     (let m = sys_m this; b = sys_b this; k = sys_k this;
          omega0' = js_sqrt (js_div k m);
          f0' = js_div omega0' (js_mul (Num 2) Math_PI);
          T0' = js_div (Num 1) f0';
          zeta' = js_div b (js_mul (Num 2) (js_sqrt (js_mul m k)));
          discriminant = js_sub (js_mul b b) (js_mul (js_mul (Num 4) m) k);
          regime' = (if js_lt (js_abs discriminant) (lit (1 / 10 ^ 10)) then critical
                     else if js_gt discriminant (Num 0) then overdamped
                     else underdamped);
          omegaD' = (if regime' = underdamped
                     then js_mul omega0' (js_sqrt (js_sub (Num 1) (js_mul zeta' zeta')))
                     else Num 0);
          fD' = js_div omegaD' (js_mul (Num 2) Math_PI);
          Q' = js_div (js_sqrt (js_mul m k)) b
      in \<lparr>omega0 = omega0', f0 = f0', T0 = T0', zeta = zeta', regime = regime',
          omegaD = omegaD', fD = fD', Q = Q'\<rparr>)"

definition getEnergy :: "store \<times> MassSpringSystem \<Rightarrow> jsnum" where
  "getEnergy w =
     (case w of (\<sigma>, this) \<Rightarrow>
        let y = st_y (\<sigma> ! sys_state this); v = st_v (\<sigma> ! sys_state this);
            kineticEnergy = js_mul (js_mul (js_mul (Num 0.5) (sys_m this)) v) v;
            potentialEnergy = js_mul (js_mul (js_mul (Num 0.5) (sys_k this)) y) y
        in js_add kineticEnergy potentialEnergy)"

section \<open>Observations and call sequences\<close>

text \<open>The object that a call of \<open>getState()\<close> returns.\<close>

definition getState_value :: "store \<times> MassSpringSystem \<Rightarrow> state" where
  "getState_value w = (case getState w of (r, \<sigma>') \<Rightarrow> \<sigma>' ! r)"

text \<open>
  The error kinds of the specification: \<open>InvalidParameter\<close> is one of the three
  errors of the parameter checks, \<open>UnknownForcingPreset\<close> the error of the lookup.
\<close>

definition InvalidParameter :: "error \<Rightarrow> bool" where
  "InvalidParameter e =
     (e = Error ''Mass must be positive''
      \<or> e = Error ''Damping coefficient must be non-negative''
      \<or> e = Error ''Spring constant must be non-negative'')"

definition UnknownForcingPreset :: "string \<Rightarrow> error \<Rightarrow> bool" where
  "UnknownForcingPreset name e = (e = Error (''Unknown forcing function: '' @ name))"

text \<open>The values that the parameter checks reject.\<close>

definition invalid_mass :: "jsnum \<Rightarrow> bool" where
  "invalid_mass m = js_le m (Num 0)"

definition invalid_damping :: "jsnum \<Rightarrow> bool" where
  "invalid_damping b = js_lt b (Num 0)"

definition invalid_springConstant :: "jsnum \<Rightarrow> bool" where
  "invalid_springConstant k = js_lt k (Num 0)"

text \<open>A supplied field passes its check, or the field is omitted.\<close>

definition passes :: "(jsnum \<Rightarrow> bool) \<Rightarrow> jsnum option \<Rightarrow> bool" where
  "passes invalid x = (case x of None \<Rightarrow> True | Some a \<Rightarrow> \<not> invalid a)"

text \<open>
  A caller's sequence of calls on one system. A call that throws is caught by the
  caller; the system continues as the call left it.
\<close>

datatype call =
    Step jsnum
  | SetParameters param_update
  | SetForcing string "params option"

fun exec :: "host \<Rightarrow> store \<times> MassSpringSystem \<Rightarrow> call \<Rightarrow> store \<times> MassSpringSystem" where
  "exec h w (Step dt) = snd (step h dt w)"
| "exec h w (SetParameters p) = (fst w, snd (setParameters p (snd w)))"
| "exec h w (SetForcing name ps) = (fst w, snd (setForcing name ps (snd w)))"

definition empty_config :: config where
  "empty_config = \<lparr>cfg_m = None, cfg_b = None, cfg_k = None, cfg_y0 = None, cfg_v0 = None\<rparr>"

text \<open>
  The derivative function of the specification,
  \<open>f(y, v, t) = (v, (-damping * v - springConstant * y + forcing(t)) / mass)\<close>.
\<close>

definition spec_derivative ::
  "MassSpringSystem \<Rightarrow> (jsnum \<Rightarrow> jsnum) \<Rightarrow> jsnum \<times> jsnum \<times> jsnum \<Rightarrow> jsnum \<times> jsnum" where
  "spec_derivative this forcing s =
     (case s of (y, v, t) \<Rightarrow>
        (v, js_div (js_add (js_sub (js_mul (js_neg (sys_b this)) v) (js_mul (sys_k this) y))
                      (forcing t))
              (sys_m this)))"

text \<open>Fixtures: the system and the store that \<open>new MassSpringSystem({})\<close> builds in an
  empty store, and a runtime with a correctly rounded sine and cosine in which no member
  of \<open>Object.prototype\<close> can be called.\<close>

definition default_state :: state where
  "default_state = \<lparr>st_y = Num 1, st_v = Num 0, st_t = Num 0\<rparr>"

definition default_system :: MassSpringSystem where
  "default_system =
     \<lparr>sys_m = Num 1, sys_b = lit 0.1, sys_k = Num 1, sys_y0 = Num 1, sys_v0 = Num 0,
      sys_state = 0, forcingName = ''none'', forcingFn = none_fn,
      forcingParams = Map.empty\<rparr>"

definition no_host :: host where
  "no_host =
     \<lparr>Math_sin = (\<lambda>x. fl False (sin x)), Math_cos = (\<lambda>x. fl False (cos x)),
      call_inherited = (\<lambda>name t ps. Inl (TypeError ''this.forcingFn is not a function''))\<rparr>"

text \<open>
  The catalog of the specification: the formula of each preset in the words of the
  table, as a function of the parameters and the time. The operations are those of the
  numbers; \<open>t mod period\<close> is the remainder \<open>%\<close> of the language.
\<close>

definition catalog_none :: "jsnum \<Rightarrow> jsnum" where
  "catalog_none t = Num 0"

definition catalog_constant :: "jsnum \<Rightarrow> jsnum \<Rightarrow> jsnum" where
  "catalog_constant force t = force"

definition catalog_sine :: "host \<Rightarrow> jsnum \<Rightarrow> jsnum \<Rightarrow> jsnum \<Rightarrow> jsnum" where
  "catalog_sine h amplitude frequency t =
     js_mul amplitude (js_sin h (js_mul (js_mul (js_mul (Num 2) Math_PI) frequency) t))"

definition catalog_cosine :: "host \<Rightarrow> jsnum \<Rightarrow> jsnum \<Rightarrow> jsnum \<Rightarrow> jsnum" where
  "catalog_cosine h amplitude frequency t =
     js_mul amplitude (js_cos h (js_mul (js_mul (js_mul (Num 2) Math_PI) frequency) t))"

definition catalog_step :: "jsnum \<Rightarrow> jsnum \<Rightarrow> jsnum \<Rightarrow> jsnum" where
  "catalog_step amplitude stepTime t = (if js_ge t stepTime then amplitude else Num 0)"

definition catalog_square :: "jsnum \<Rightarrow> jsnum \<Rightarrow> jsnum \<Rightarrow> jsnum" where
  "catalog_square amplitude frequency t =
     (let period = js_div (Num 1) frequency
      in js_mul amplitude
           (if js_lt (js_div (js_rem t period) period) (Num 0.5) then Num 1 else Num (- 1)))"

definition catalog_impulse :: "jsnum \<Rightarrow> jsnum \<Rightarrow> jsnum \<Rightarrow> jsnum \<Rightarrow> jsnum" where
  "catalog_impulse amplitude impulseTime width t =
     (if js_le impulseTime t \<and> js_lt t (js_add impulseTime width)
      then js_div amplitude width else Num 0)"

text \<open>
  The forcing that a selection denotes: the catalog formula of the selected function
  at the resolved parameters, a parameter that is absent from them taking the default of
  the function's own parameter pattern. A member of \<open>Object.prototype\<close> is no function
  of the catalog.
\<close>

fun catalog_forcing :: "host \<Rightarrow> fn \<Rightarrow> params \<Rightarrow> jsnum \<Rightarrow> jsnum" where
  "catalog_forcing h none_fn ps t = catalog_none t"
| "catalog_forcing h constant_fn ps t = catalog_constant (param ps ''force'' (Num 1)) t"
| "catalog_forcing h sine_fn ps t =
     catalog_sine h (param ps ''amplitude'' (Num 1)) (param ps ''frequency'' (Num 1)) t"
| "catalog_forcing h cosine_fn ps t =
     catalog_cosine h (param ps ''amplitude'' (Num 1)) (param ps ''frequency'' (Num 1)) t"
| "catalog_forcing h step_fn ps t =
     catalog_step (param ps ''amplitude'' (Num 1)) (param ps ''stepTime'' (Num 0)) t"
| "catalog_forcing h square_fn ps t =
     catalog_square (param ps ''amplitude'' (Num 1)) (param ps ''frequency'' (Num 1)) t"
| "catalog_forcing h impulse_fn ps t =
     catalog_impulse (param ps ''amplitude'' (Num 1)) (param ps ''impulseTime'' (Num 0))
       (param ps ''width'' (lit 0.01)) t"
| "catalog_forcing h (prototype_member name) ps t = NaN"

fun is_catalog_fn :: "fn \<Rightarrow> bool" where
  "is_catalog_fn (prototype_member name) = False"
| "is_catalog_fn f = True"

text \<open>Two more fixtures: the free particle and the undamped oscillator of the
  specification's test list, as configurations of the constructor.\<close>

definition free_particle_config :: config where
  "free_particle_config =
     \<lparr>cfg_m = Some (Num 1), cfg_b = Some (Num 0), cfg_k = Some (Num 0),
      cfg_y0 = Some (Num 0), cfg_v0 = Some (Num 1)\<rparr>"

definition free_particle :: MassSpringSystem where
  "free_particle =
     \<lparr>sys_m = Num 1, sys_b = Num 0, sys_k = Num 0, sys_y0 = Num 0, sys_v0 = Num 1,
      sys_state = 0, forcingName = ''none'', forcingFn = none_fn,
      forcingParams = Map.empty\<rparr>"

definition shm_config :: config where
  "shm_config =
     \<lparr>cfg_m = Some (Num 1), cfg_b = Some (Num 0), cfg_k = Some (Num 1),
      cfg_y0 = Some (Num 1), cfg_v0 = Some (Num 0)\<rparr>"

definition shm_system :: MassSpringSystem where
  "shm_system =
     \<lparr>sys_m = Num 1, sys_b = Num 0, sys_k = Num 1, sys_y0 = Num 1, sys_v0 = Num 0,
      sys_state = 0, forcingName = ''none'', forcingFn = none_fn,
      forcingParams = Map.empty\<rparr>"

text \<open>
  One RK4 step of size \<open>d\<close> on the undamped, unforced oscillator \<open>y'' = -y\<close> multiplies
  \<open>(y, v)\<close> by the matrix with the entries \<open>shm_c d\<close> and \<open>shm_s d\<close>, the Taylor
  polynomials of cosine and sine of degree four.
\<close>

definition shm_c :: "real \<Rightarrow> real" where
  "shm_c d = 1 - d ^ 2 / 2 + d ^ 4 / 24"

definition shm_s :: "real \<Rightarrow> real" where
  "shm_s d = d - d ^ 3 / 6"

text \<open>
  The finite number \<open>a\<close> approximates the real \<open>x\<close> within \<open>e\<close>, and \<open>x\<close> is at most \<open>B\<close> in
  magnitude.
\<close>

definition approximates :: "jsnum \<Rightarrow> real \<Rightarrow> real \<Rightarrow> real \<Rightarrow> bool" where
  "approximates a x e B = (is_fin a \<and> \<bar>val a - x\<bar> \<le> e \<and> \<bar>x\<bar> \<le> B)"

section \<open>Rounding\<close>

lemma ulp_pos: "0 < ulp x"
  by (simp add: ulp_def)

lemma rne_error: "\<bar>of_int (rne r) - r\<bar> \<le> 1 / 2"
  unfolding rne_def Let_def by (auto; linarith)

lemma rne_of_int: "rne (of_int k) = k"
  by (simp add: rne_def)

lemma rne_ge: "of_int k \<le> r \<Longrightarrow> k \<le> rne r"
  unfolding rne_def Let_def by (auto simp: le_floor_iff; linarith)

lemma rne_le: "r \<le> of_int k \<Longrightarrow> rne r \<le> k"
proof -
  assume a: "r \<le> of_int k"
  have f: "\<lfloor>r\<rfloor> \<le> k" using a by (simp add: floor_le_iff)
  show ?thesis
  proof (cases "\<lfloor>r\<rfloor> = k")
    case True
    then have "r = of_int k" using a by linarith
    then show ?thesis by (simp add: rne_of_int)
  next
    case False
    with f have "\<lfloor>r\<rfloor> + 1 \<le> k" by linarith
    then show ?thesis unfolding rne_def Let_def by auto
  qed
qed

lemma round64_error: "\<bar>round64 x - x\<bar> \<le> ulp x / 2"
proof (cases "x = 0")
  case True
  then show ?thesis using ulp_pos [of x] by (simp add: round64_def)
next
  case False
  have "round64 x - x = (of_int (rne (x / ulp x)) - x / ulp x) * ulp x"
    using False ulp_pos [of x] by (simp add: round64_def field_simps)
  then have "\<bar>round64 x - x\<bar> = \<bar>of_int (rne (x / ulp x)) - x / ulp x\<bar> * ulp x"
    using ulp_pos [of x] by (simp add: abs_mult)
  also have "\<dots> \<le> 1 / 2 * ulp x"
    using rne_error [of "x / ulp x"] ulp_pos [of x] by (intro mult_right_mono) simp_all
  finally show ?thesis by simp
qed

lemma log2_le:
  assumes "\<bar>x\<bar> \<le> 2 powr y" and "x \<noteq> 0"
  shows "log 2 \<bar>x\<bar> \<le> y"
proof (rule ccontr)
  assume "\<not> log 2 \<bar>x\<bar> \<le> y"
  then have "y < log 2 \<bar>x\<bar>" by simp
  then have "2 powr y < \<bar>x\<bar>" using assms(2) by (simp add: less_log_iff)
  with assms(1) show False by simp
qed

lemma expo_le:
  assumes "\<bar>x\<bar> \<le> 2 powr of_int j" and "- 1022 \<le> j" and "x \<noteq> 0"
  shows "expo x \<le> j"
proof -
  have "log 2 \<bar>x\<bar> \<le> of_int j"
    using assms(1,3) by (rule log2_le)
  then have "\<lfloor>log 2 \<bar>x\<bar>\<rfloor> \<le> j" by (simp add: floor_le_iff)
  with assms(2) show ?thesis by (simp add: expo_def)
qed

lemma round64_error_bound:
  assumes "\<bar>x\<bar> \<le> 2 powr of_int j" and "- 1022 \<le> j"
  shows "\<bar>round64 x - x\<bar> \<le> 2 powr (of_int j - 53)"
proof (cases "x = 0")
  case True
  then show ?thesis by (simp add: round64_def)
next
  case False
  have "ulp x \<le> 2 powr (of_int j - 52)"
    unfolding ulp_def using expo_le [OF assms False] by simp
  then have "ulp x / 2 \<le> 2 powr (of_int j - 52) / 2" by simp
  also have "\<dots> = 2 powr (of_int j - 53)"
    by (simp add: powr_diff)
  finally show ?thesis using round64_error [of x] by linarith
qed


lemma round64_error_64: "\<bar>x\<bar> \<le> 64 \<Longrightarrow> \<bar>round64 x - x\<bar> \<le> 1 / 2 ^ 47"
proof -
  assume a: "\<bar>x\<bar> \<le> 64"
  have p: "(2::real) powr of_int 6 = 64" by simp
  have q: "(2::real) powr (of_int 6 - 53) = 1 / 2 ^ 47"
    using powr_minus_divide [of 2 "47::real"] powr_realpow [of 2 47] by simp
  show ?thesis
    using round64_error_bound [of x 6] a unfolding p q by simp
qed

lemma round64_error_128: "\<bar>x\<bar> \<le> 128 \<Longrightarrow> \<bar>round64 x - x\<bar> \<le> 1 / 2 ^ 46"
proof -
  assume a: "\<bar>x\<bar> \<le> 128"
  have p: "(2::real) powr of_int 7 = 128" by simp
  have q: "(2::real) powr (of_int 7 - 53) = 1 / 2 ^ 46"
    using powr_minus_divide [of 2 "46::real"] powr_realpow [of 2 46] by simp
  show ?thesis
    using round64_error_bound [of x 7] a unfolding p q by simp
qed

lemma round64_nonneg: "0 \<le> x \<Longrightarrow> 0 \<le> round64 x"
proof -
  assume a: "0 \<le> x"
  then have "of_int 0 \<le> x / ulp x" using ulp_pos [of x] by simp
  then have "0 \<le> rne (x / ulp x)" by (rule rne_ge)
  then show ?thesis using ulp_pos [of x] by (simp add: round64_def)
qed

lemma round64_nonpos: "x \<le> 0 \<Longrightarrow> round64 x \<le> 0"
proof -
  assume a: "x \<le> 0"
  then have "x / ulp x \<le> of_int 0" using ulp_pos [of x] by (simp add: divide_nonpos_pos)
  then have "rne (x / ulp x) \<le> 0" by (rule rne_le)
  then show ?thesis using ulp_pos [of x] by (simp add: round64_def mult_nonpos_nonneg)
qed

lemma ulp_le_abs:
  assumes "2 powr (- 1074) \<le> \<bar>x\<bar>"
  shows "ulp x \<le> \<bar>x\<bar>"
proof (cases "\<lfloor>log 2 \<bar>x\<bar>\<rfloor> \<le> - 1022")
  case True
  then have "expo x = - 1022" by (simp add: expo_def)
  then have "ulp x = 2 powr (- 1074)" by (simp add: ulp_def)
  with assms show ?thesis by simp
next
  case False
  then have e: "expo x = \<lfloor>log 2 \<bar>x\<bar>\<rfloor>" by (simp add: expo_def)
  have x: "0 < \<bar>x\<bar>" using assms powr_gt_zero [of 2 "- 1074"] by linarith
  have "of_int (expo x) - 52 \<le> log 2 \<bar>x\<bar>" unfolding e by linarith
  then have "2 powr (of_int (expo x) - 52) \<le> 2 powr (log 2 \<bar>x\<bar>)" by simp
  also have "\<dots> = \<bar>x\<bar>" using x by simp
  finally show ?thesis by (simp add: ulp_def)
qed

lemma round64_pos:
  assumes "2 powr (- 1074) \<le> x"
  shows "0 < round64 x"
proof -
  have x: "0 < x" using assms powr_gt_zero [of 2 "- 1074"] by linarith
  have "ulp x \<le> x" using ulp_le_abs [of x] assms x by simp
  then have "of_int 1 \<le> x / ulp x" using ulp_pos [of x] by (simp add: field_simps)
  then have "1 \<le> rne (x / ulp x)" by (rule rne_ge)
  then have "0 < of_int (rne (x / ulp x)) * ulp x"
    using ulp_pos [of x] by simp
  with x show ?thesis by (simp add: round64_def)
qed

lemma expo_eq:
  assumes "2 powr of_int e \<le> \<bar>x\<bar>" and "\<bar>x\<bar> < 2 powr (of_int e + 1)" and "- 1022 \<le> e"
  shows "expo x = e"
proof -
  have x: "0 < \<bar>x\<bar>" using assms(1) powr_gt_zero [of 2 "of_int e"] by linarith
  have 1: "of_int e \<le> log 2 \<bar>x\<bar>" using assms(1) x by (simp add: le_log_iff)
  have 2: "log 2 \<bar>x\<bar> < of_int e + 1"
  proof (rule ccontr)
    assume "\<not> log 2 \<bar>x\<bar> < of_int e + 1"
    then have "of_int e + 1 \<le> log 2 \<bar>x\<bar>" by simp
    then have "2 powr (of_int e + 1) \<le> \<bar>x\<bar>" using x by (simp add: le_log_iff)
    with assms(2) show False by simp
  qed
  from 1 2 have "\<lfloor>log 2 \<bar>x\<bar>\<rfloor> = e" by (rule floor_unique)
  with assms(3) show ?thesis by (simp add: expo_def)
qed

lemma round64_exact:
  assumes "x / ulp x = of_int k"
  shows "round64 x = x"
proof (cases "x = 0")
  case True
  then show ?thesis by (simp add: round64_def)
next
  case False
  have "of_int (rne (x / ulp x)) * ulp x = of_int k * ulp x"
    unfolding assms by (simp add: rne_of_int)
  also have "\<dots> = x" using assms ulp_pos [of x] by (simp add: field_simps)
  finally show ?thesis using False by (simp add: round64_def)
qed

lemma round64_one: "round64 1 = 1"
proof -
  have "expo 1 = 0" by (rule expo_eq) simp_all
  then have u: "ulp 1 = 2 powr (- 52)" by (simp add: ulp_def)
  have "(1::real) / 2 powr (- 52) = 2 powr 52" by (simp add: powr_minus field_simps)
  also have "\<dots> = of_int (2 ^ 52)" using powr_realpow [of 2 52] by simp
  finally show ?thesis using round64_exact [of 1 "2 ^ 52"] unfolding u by simp
qed


lemma expo_ge: "- 1022 \<le> expo x"
  by (simp add: expo_def)

lemma abs_less_expo:
  assumes "x \<noteq> 0"
  shows "\<bar>x\<bar> < 2 powr (of_int (expo x) + 1)"
proof -
  have "log 2 \<bar>x\<bar> < of_int \<lfloor>log 2 \<bar>x\<bar>\<rfloor> + 1" by linarith
  also have "\<dots> \<le> of_int (expo x) + 1" by (simp add: expo_def)
  finally have "2 powr (log 2 \<bar>x\<bar>) < 2 powr (of_int (expo x) + 1)" by simp
  then show ?thesis using assms by simp
qed

lemma expo_small:
  assumes "\<bar>y\<bar> < 2 powr (- 1021)" and "y \<noteq> 0"
  shows "expo y = - 1022"
proof -
  have "log 2 \<bar>y\<bar> < - 1021"
    using assms by (simp add: log_less_iff)
  then have "\<lfloor>log 2 \<bar>y\<bar>\<rfloor> < - 1021" by linarith
  then show ?thesis by (simp add: expo_def)
qed

lemma powr_shift53: "(2::real) powr (of_int e + 1) = 2 ^ 53 * 2 powr (of_int e - 52)"
proof -
  have "(of_int e + 1 :: real) = 53 + (of_int e - 52)" by simp
  then have "(2::real) powr (of_int e + 1) = 2 powr (53 + (of_int e - 52))" by (rule arg_cong)
  also have "\<dots> = 2 powr 53 * 2 powr (of_int e - 52)" by (rule powr_add)
  also have "(2::real) powr 53 = 2 ^ 53" using powr_realpow [of 2 53] by simp
  finally show ?thesis .
qed

lemma powr_shift52: "(2::real) powr (of_int e) = 2 ^ 52 * 2 powr (of_int e - 52)"
proof -
  have "(of_int e :: real) = 52 + (of_int e - 52)" by simp
  then have "(2::real) powr (of_int e) = 2 powr (52 + (of_int e - 52))" by (rule arg_cong)
  also have "\<dots> = 2 powr 52 * 2 powr (of_int e - 52)" by (rule powr_add)
  also have "(2::real) powr 52 = 2 ^ 52" using powr_realpow [of 2 52] by simp
  finally show ?thesis .
qed

lemma round64_grid: "\<exists>k. round64 x / ulp (round64 x) = of_int k"
proof (cases "round64 x = 0")
  case True
  then have "round64 x / ulp (round64 x) = of_int 0" by simp
  then show ?thesis by blast
next
  case False
  then have x: "x \<noteq> 0" by (auto simp: round64_def)
  define e where "e = expo x"
  define u where "u = ulp x"
  define n where "n = rne (x / u)"
  define y where "y = round64 x"
  have u: "u = 2 powr (of_int e - 52)" by (simp add: u_def e_def ulp_def)
  have up: "0 < u" by (simp add: u_def ulp_pos)
  have y: "y = of_int n * u" using x by (simp add: y_def n_def u_def round64_def)
  have n0: "n \<noteq> 0" using False y by (auto simp: y_def)
  have ay: "\<bar>y\<bar> = of_int \<bar>n\<bar> * u" using up by (simp add: y abs_mult)
  have "\<bar>x\<bar> < 2 powr (of_int e + 1)" unfolding e_def using x by (rule abs_less_expo)
  also have "\<dots> = 2 ^ 53 * u"
    unfolding u by (rule powr_shift53)
  finally have xu: "\<bar>x / u\<bar> < 2 ^ 53" using up by (simp add: field_simps abs_mult)
  have "x / u \<le> 2 ^ 53" "- (2 ^ 53) \<le> x / u" using xu by linarith+
  then have "x / u \<le> of_int (2 ^ 53)" "of_int (- (2 ^ 53)) \<le> x / u" by simp_all
  then have nb: "n \<le> 2 ^ 53" "- (2 ^ 53) \<le> n"
    unfolding n_def by (auto intro: rne_le rne_ge)
  show ?thesis
  proof (cases "\<bar>n\<bar> = 2 ^ 53")
    case True
    then have "\<bar>y\<bar> = 2 ^ 53 * u" unfolding ay by simp
    then have ay': "\<bar>y\<bar> = 2 powr (of_int (e + 1))"
      unfolding u using powr_shift53 [of e] by simp
    have "expo y = e + 1"
    proof (rule expo_eq)
      show "2 powr of_int (e + 1) \<le> \<bar>y\<bar>" using ay' by simp
      show "\<bar>y\<bar> < 2 powr (of_int (e + 1) + 1)" unfolding ay' by simp
      show "- 1022 \<le> e + 1" using expo_ge [of x] by (simp add: e_def)
    qed
    then have "ulp y = 2 * u" unfolding u ulp_def
      by (simp add: powr_add [symmetric] powr_diff field_simps)
    then have "y / ulp y = of_int n / 2" using up by (simp add: y)
    moreover have "even n"
    proof -
      have "even \<bar>n\<bar>" unfolding True by simp
      then show ?thesis by simp
    qed
    ultimately have "y / ulp y = of_int (n div 2)"
      by (simp add: real_of_int_div)
    then show ?thesis unfolding y_def by blast
  next
    case False
    with nb have n53: "\<bar>n\<bar> < 2 ^ 53" by linarith
    then have "(of_int \<bar>n\<bar> :: real) < 2 ^ 53"
      by (metis of_int_less_iff of_int_numeral of_int_power)
    then have "\<bar>y\<bar> < 2 ^ 53 * u" unfolding ay using up by simp
    also have "\<dots> = 2 powr (of_int e + 1)" unfolding u by (rule powr_shift53 [symmetric])
    finally have yu: "\<bar>y\<bar> < 2 powr (of_int e + 1)" .
    have y0: "y \<noteq> 0" using n0 up by (simp add: y)
    have "expo y = e"
    proof (cases "e = - 1022")
      case True
      with yu have "\<bar>y\<bar> < 2 powr (- 1021)" by simp
      then show ?thesis using y0 True by (simp add: expo_small)
    next
      case False
      then have "e = \<lfloor>log 2 \<bar>x\<bar>\<rfloor>" using expo_ge [of x] by (simp add: e_def expo_def)
      then have "of_int e \<le> log 2 \<bar>x\<bar>" by simp
      then have "2 powr of_int e \<le> \<bar>x\<bar>" using x by (simp add: le_log_iff)
      moreover have "2 powr of_int e = 2 ^ 52 * u" unfolding u by (rule powr_shift52)
      ultimately have "2 ^ 52 * u \<le> \<bar>x\<bar>" by simp
      then have a: "2 ^ 52 \<le> \<bar>x / u\<bar>" using up by (simp add: field_simps abs_mult)
      have "2 ^ 52 \<le> \<bar>n\<bar>"
      proof (cases "0 \<le> x")
        case True
        then have "of_int (2 ^ 52) \<le> x / u" using a up by simp
        then have "2 ^ 52 \<le> n" unfolding n_def by (rule rne_ge)
        then show ?thesis by simp
      next
        case False
        then have "x / u \<le> of_int (- (2 ^ 52))" using a up by (simp add: abs_if field_simps split: if_splits)
        then have "n \<le> - (2 ^ 52)" unfolding n_def by (rule rne_le)
        then show ?thesis by simp
      qed
      then have "(2 ^ 52 :: real) \<le> of_int \<bar>n\<bar>"
        by (metis of_int_le_iff of_int_numeral of_int_power)
      then have "2 ^ 52 * u \<le> \<bar>y\<bar>" unfolding ay using up by simp
      then have "2 powr of_int e \<le> \<bar>y\<bar>" unfolding u using powr_shift52 [of e] by simp
      then show ?thesis using yu expo_ge [of x] by (intro expo_eq) (simp_all add: e_def)
    qed
    then have "ulp y = u" by (simp add: ulp_def u)
    then have "y / ulp y = of_int n" using up by (simp add: y)
    then show ?thesis unfolding y_def by blast
  qed
qed

lemma round64_idem: "round64 (round64 x) = round64 x"
  using round64_grid [of x] round64_exact by blast

lemma ulp_minus: "ulp (- x) = ulp x"
  by (simp add: ulp_def expo_def)

lemma round64_minus_round64: "round64 (- round64 x) = - round64 x"
proof -
  obtain k where "round64 x / ulp (round64 x) = of_int k" using round64_grid by blast
  then have "(- round64 x) / ulp (- round64 x) = of_int (- k)" by (simp add: ulp_minus)
  then show ?thesis by (rule round64_exact)
qed

lemma round64_min:
  assumes "round64 x \<noteq> 0"
  shows "2 powr (- 1074) \<le> \<bar>round64 x\<bar>"
proof -
  from assms have x: "x \<noteq> 0" by (auto simp: round64_def)
  then have r: "round64 x = of_int (rne (x / ulp x)) * ulp x" by (simp add: round64_def)
  with assms have "rne (x / ulp x) \<noteq> 0" by auto
  then have "1 \<le> \<bar>rne (x / ulp x)\<bar>" by linarith
  then have "(1::real) \<le> of_int \<bar>rne (x / ulp x)\<bar>" by linarith
  then have "ulp x \<le> of_int \<bar>rne (x / ulp x)\<bar> * ulp x"
    using ulp_pos [of x] by simp
  also have "\<dots> = \<bar>round64 x\<bar>" using ulp_pos [of x] by (simp add: r abs_mult)
  finally have "ulp x \<le> \<bar>round64 x\<bar>" .
  moreover have "2 powr (- 1074) \<le> ulp x"
    unfolding ulp_def using expo_ge [of x] by simp
  ultimately show ?thesis by linarith
qed

section \<open>Arithmetic of the numbers\<close>

lemma js_le_Num [simp]: "js_le (Num x) (Num y) = (x \<le> y)"
  by (simp add: js_le_def)

lemma js_lt_Num [simp]: "js_lt (Num x) (Num y) = (x < y)"
  by (simp add: js_lt_def)

lemma round64_le_65:
  assumes "\<bar>r\<bar> \<le> 64"
  shows "\<bar>round64 r\<bar> \<le> 65"
proof -
  have "\<bar>round64 r - r\<bar> \<le> 1 / 2 ^ 47" using assms by (rule round64_error_64)
  moreover have "(1::real) / 2 ^ 47 \<le> 1" by simp
  ultimately show ?thesis using assms by linarith
qed

lemma fl_finite:
  assumes "\<bar>round64 r\<bar> < 2 ^ 1024"
  shows "is_fin (fl neg r)" and "val (fl neg r) = round64 r"
  using assms by (simp_all add: fl_def finz_def signed_zero_def Let_def)

lemma lit_pos:
  assumes "2 powr (- 1074) \<le> r" and "r \<le> 64"
  shows "lit r = Num (round64 r)" and "0 < round64 r"
proof -
  show p: "0 < round64 r" using assms(1) by (rule round64_pos)
  have r: "0 < r" using assms(1) powr_gt_zero [of 2 "- 1074"] by linarith
  then have "\<bar>round64 r\<bar> \<le> 65" using assms(2) by (intro round64_le_65) simp
  moreover have "(65::real) < 2 ^ 1024" by simp
  ultimately have "\<not> 2 ^ 1024 \<le> \<bar>round64 r\<bar>" by linarith
  then show "lit r = Num (round64 r)"
    using p r by (simp add: lit_def fl_def finz_def Let_def)
qed

lemma tiny_le: "1 / 2 ^ 40 \<le> r \<Longrightarrow> 2 powr (- 1074) \<le> (r::real)"
proof -
  assume a: "1 / 2 ^ 40 \<le> r"
  have "(2::real) powr (- 1074) \<le> 2 powr (- 40)" by simp
  also have "\<dots> = 1 / 2 ^ 40"
    using powr_minus_divide [of 2 "40::real"] powr_realpow [of 2 40] by simp
  finally show ?thesis using a by linarith
qed

lemma lit_tenth: "lit (1 / 10) = Num (round64 (1 / 10))" "0 < round64 (1 / 10)"
  by (rule lit_pos; (rule tiny_le)?; simp)+

lemma lit_hundredth: "lit (1 / 100) = Num (round64 (1 / 100))" "0 < round64 (1 / 100)"
  by (rule lit_pos; (rule tiny_le)?; simp)+

lemma lit_tolerance:
  "lit (1 / 10 ^ 10) = Num (round64 (1 / 10 ^ 10))" "0 < round64 (1 / 10 ^ 10)"
  by (rule lit_pos; (rule tiny_le)?; simp)+

lemma not_lit_tenth_neg [simp]: "\<not> js_lt (lit (1 / 10)) (Num 0)"
  using lit_tenth by simp

section \<open>Construction\<close>

text \<open>
  C10. Every field of the constructor's configuration object is optional: an omitted
  field takes its built-in default (\<open>m = 1.0\<close>, \<open>b = 0.1\<close>, \<open>k = 1.0\<close>, \<open>y0 = 1.0\<close>,
  \<open>v0 = 0.0\<close>), so a configuration behaves as the one with the defaults filled in, and
  the empty configuration constructs a system with \<open>getParameters() = {1.0, 0.1, 1.0}\<close>
  and \<open>getState() = {y: 1.0, v: 0.0, t: 0}\<close>.
\<close>

theorem constructor_defaults:
  "constructor c \<sigma> =
     constructor \<lparr>cfg_m = Some (dflt (cfg_m c) (Num 1)), cfg_b = Some (dflt (cfg_b c) (lit 0.1)),
                  cfg_k = Some (dflt (cfg_k c) (Num 1)), cfg_y0 = Some (dflt (cfg_y0 c) (Num 1)),
                  cfg_v0 = Some (dflt (cfg_v0 c) (Num 0))\<rparr> \<sigma>
   \<and> (\<exists>\<sigma>' this. constructor empty_config \<sigma> = Inr (\<sigma>', this)
        \<and> getParameters this = (Num 1, lit 0.1, Num 1)
        \<and> getState_value (\<sigma>', this) = \<lparr>st_y = Num 1, st_v = Num 0, st_t = Num 0\<rparr>)"
  by (simp add: constructor_def dflt_def empty_config_def getParameters_def
      getState_value_def getState_def Let_def nth_append)

text \<open>
  C6. The constructor raises InvalidParameter, with a message that names the offending
  field, if and only if \<open>mass <= 0\<close>, \<open>damping < 0\<close> or \<open>springConstant < 0\<close>; when it
  succeeds the state is \<open>(y0, v0, 0)\<close> and the forcing selection is the preset
  \<open>none\<close>.
\<close>

theorem constructor_validation:
  fixes c :: config and \<sigma> :: store
  defines "m \<equiv> dflt (cfg_m c) (Num 1)"
    and "b \<equiv> dflt (cfg_b c) (lit 0.1)"
    and "k \<equiv> dflt (cfg_k c) (Num 1)"
    and "y0 \<equiv> dflt (cfg_y0 c) (Num 1)"
    and "v0 \<equiv> dflt (cfg_v0 c) (Num 0)"
  shows "((\<exists>e. constructor c \<sigma> = Inl e)
            = (invalid_mass m \<or> invalid_damping b \<or> invalid_springConstant k))
       \<and> (\<forall>e. constructor c \<sigma> = Inl e \<longrightarrow>
             InvalidParameter e
             \<and> (e = Error ''Mass must be positive'' \<and> invalid_mass m
                \<or> e = Error ''Damping coefficient must be non-negative'' \<and> invalid_damping b
                \<or> e = Error ''Spring constant must be non-negative''
                    \<and> invalid_springConstant k))
       \<and> (\<forall>\<sigma>' this. constructor c \<sigma> = Inr (\<sigma>', this) \<longrightarrow>
             getState_value (\<sigma>', this) = \<lparr>st_y = y0, st_v = v0, st_t = Num 0\<rparr>
             \<and> getParameters this = (m, b, k)
             \<and> getForcing this = (''none'', Map.empty)
             \<and> forcingFn this = none_fn)"
  unfolding m_def b_def k_def y0_def v0_def
  by (auto simp: constructor_def invalid_mass_def invalid_damping_def getForcing_def
      invalid_springConstant_def InvalidParameter_def getParameters_def
      getState_value_def getState_def Let_def nth_append split: if_splits)

text \<open>Mass 0 and mass -1 are rejected with the message about the mass; zero damping and
  a zero spring constant are accepted.\<close>

theorem constructor_validation_witness:
  "constructor (empty_config\<lparr>cfg_m := Some (Num 0)\<rparr>) [] = Inl (Error ''Mass must be positive'')
   \<and> constructor (empty_config\<lparr>cfg_m := Some (Num (- 1))\<rparr>) []
       = Inl (Error ''Mass must be positive'')
   \<and> (\<exists>\<sigma>' this. constructor free_particle_config [] = Inr (\<sigma>', this)
         \<and> getState_value (\<sigma>', this) = \<lparr>st_y = Num 0, st_v = Num 1, st_t = Num 0\<rparr>
         \<and> getForcing this = (''none'', Map.empty))"
proof -
  let ?c0 = "empty_config\<lparr>cfg_m := Some (Num 0)\<rparr>"
  let ?c1 = "empty_config\<lparr>cfg_m := Some (Num (- 1))\<rparr>"
  have "\<exists>e. constructor ?c0 [] = Inl e"
    using constructor_validation [of ?c0 "[]"]
    by (simp add: empty_config_def dflt_def invalid_mass_def)
  then have a: "constructor ?c0 [] = Inl (Error ''Mass must be positive'')"
    using constructor_validation [of ?c0 "[]"]
    by (auto simp: empty_config_def dflt_def invalid_damping_def invalid_springConstant_def)
  have "\<exists>e. constructor ?c1 [] = Inl e"
    using constructor_validation [of ?c1 "[]"]
    by (simp add: empty_config_def dflt_def invalid_mass_def)
  then have b: "constructor ?c1 [] = Inl (Error ''Mass must be positive'')"
    using constructor_validation [of ?c1 "[]"]
    by (auto simp: empty_config_def dflt_def invalid_damping_def invalid_springConstant_def)
  have "\<not> (\<exists>e. constructor free_particle_config [] = Inl e)"
    using constructor_validation [of free_particle_config "[]"]
    by (simp add: free_particle_config_def dflt_def invalid_mass_def invalid_damping_def
        invalid_springConstant_def)
  then obtain \<sigma>' this where ok: "constructor free_particle_config [] = Inr (\<sigma>', this)"
    by (cases "constructor free_particle_config []") auto
  then have c: "getState_value (\<sigma>', this) = \<lparr>st_y = Num 0, st_v = Num 1, st_t = Num 0\<rparr>
                \<and> getForcing this = (''none'', Map.empty)"
    using constructor_validation [of free_particle_config "[]"]
    by (simp add: free_particle_config_def dflt_def)
  from a b ok c show ?thesis by blast
qed

section \<open>Parameter updates\<close>

lemma set_m_cases:
  "set_m x this =
     (if passes invalid_mass x
      then Inr (case x of None \<Rightarrow> this | Some a \<Rightarrow> this\<lparr>sys_m := a\<rparr>)
      else Inl (Error ''Mass must be positive''))"
  by (simp add: set_m_def passes_def invalid_mass_def split: option.splits)

lemma set_b_cases:
  "set_b x this =
     (if passes invalid_damping x
      then Inr (case x of None \<Rightarrow> this | Some a \<Rightarrow> this\<lparr>sys_b := a\<rparr>)
      else Inl (Error ''Damping coefficient must be non-negative''))"
  by (simp add: set_b_def passes_def invalid_damping_def split: option.splits)

lemma set_k_cases:
  "set_k x this =
     (if passes invalid_springConstant x
      then Inr (case x of None \<Rightarrow> this | Some a \<Rightarrow> this\<lparr>sys_k := a\<rparr>)
      else Inl (Error ''Spring constant must be non-negative''))"
  by (simp add: set_k_def passes_def invalid_springConstant_def split: option.splits)

lemma setParameters_result:
  "snd (setParameters p this) =
     this\<lparr>sys_m := (case upd_m p of
                      Some m \<Rightarrow> if passes invalid_mass (upd_m p) then m else sys_m this
                    | None \<Rightarrow> sys_m this),
          sys_b := (case upd_b p of
                      Some b \<Rightarrow> if passes invalid_mass (upd_m p) \<and> passes invalid_damping (upd_b p)
                                then b else sys_b this
                    | None \<Rightarrow> sys_b this),
          sys_k := (case upd_k p of
                      Some k \<Rightarrow> if passes invalid_mass (upd_m p) \<and> passes invalid_damping (upd_b p)
                                   \<and> passes invalid_springConstant (upd_k p)
                                then k else sys_k this
                    | None \<Rightarrow> sys_k this)\<rparr>"
  by (auto simp: setParameters_def set_m_cases set_b_cases set_k_cases split: option.splits)

lemma setParameters_raises:
  "(\<exists>e. fst (setParameters p this) = Some e)
     = (\<not> (passes invalid_mass (upd_m p) \<and> passes invalid_damping (upd_b p)
            \<and> passes invalid_springConstant (upd_k p)))"
  by (auto simp: setParameters_def set_m_cases set_b_cases set_k_cases)

lemma setParameters_error:
  "fst (setParameters p this) = Some e \<Longrightarrow> InvalidParameter e"
  by (auto simp: setParameters_def set_m_cases set_b_cases set_k_cases InvalidParameter_def
      split: if_splits)

text \<open>
  C1, as the claim states it, fails: \<open>setParameters({m: 2, b: -1})\<close> on the default
  system raises InvalidParameter for the damping, and the mass has already been
  changed from 1 to 2.
\<close>

theorem setParameters_counterexample:
  "constructor empty_config [] = Inr ([default_state], default_system)
   \<and> setParameters \<lparr>upd_m = Some (Num 2), upd_b = Some (Num (- 1)), upd_k = None\<rparr> default_system
       = (Some (Error ''Damping coefficient must be non-negative''),
          default_system\<lparr>sys_m := Num 2\<rparr>)
   \<and> InvalidParameter (Error ''Damping coefficient must be non-negative'')
   \<and> getParameters default_system = (Num 1, lit 0.1, Num 1)
   \<and> getParameters (default_system\<lparr>sys_m := Num 2\<rparr>) = (Num 2, lit 0.1, Num 1)
   \<and> getParameters (snd (setParameters
         \<lparr>upd_m = Some (Num 2), upd_b = Some (Num (- 1)), upd_k = None\<rparr> default_system))
       \<noteq> getParameters default_system"
  by (simp add: Let_def constructor_def empty_config_def dflt_def setParameters_def set_m_def
      set_b_def set_k_def InvalidParameter_def getParameters_def default_system_def
      default_state_def)

text \<open>
  C1, amended. \<open>setParameters(p)\<close> raises InvalidParameter if and only if a supplied field
  is invalid (\<open>mass <= 0\<close>, \<open>damping < 0\<close>, \<open>springConstant < 0\<close>). The fields are checked
  and assigned one after the other in the order mass, damping, spring constant: a
  supplied field is updated exactly when it and every field before it pass their checks,
  so after a failing call the valid fields before the first invalid one are updated and
  the invalid field and the fields after it keep their prior values. If every supplied
  field is valid, exactly the supplied fields are updated; an omitted field always keeps
  its prior value, and nothing but the three parameters changes.
\<close>

theorem setParameters_fields:
  fixes p :: param_update and this :: MassSpringSystem
  defines "ok_m \<equiv> passes invalid_mass (upd_m p)"
    and "ok_b \<equiv> passes invalid_damping (upd_b p)"
    and "ok_k \<equiv> passes invalid_springConstant (upd_k p)"
  shows "((\<exists>e. fst (setParameters p this) = Some e) = (\<not> (ok_m \<and> ok_b \<and> ok_k)))
       \<and> (\<forall>e. fst (setParameters p this) = Some e \<longrightarrow> InvalidParameter e)
       \<and> snd (setParameters p this) =
           this\<lparr>sys_m := (case upd_m p of Some m \<Rightarrow> if ok_m then m else sys_m this
                                         | None \<Rightarrow> sys_m this),
                sys_b := (case upd_b p of Some b \<Rightarrow> if ok_m \<and> ok_b then b else sys_b this
                                         | None \<Rightarrow> sys_b this),
                sys_k := (case upd_k p of Some k \<Rightarrow> if ok_m \<and> ok_b \<and> ok_k then k
                                                    else sys_k this
                                         | None \<Rightarrow> sys_k this)\<rparr>"
  unfolding ok_m_def ok_b_def ok_k_def
  using setParameters_raises [of p this] setParameters_error [of p this]
    setParameters_result [of p this]
  by blast

theorem setParameters_fields_witness:
  "(\<exists>e. fst (setParameters \<lparr>upd_m = Some (Num 2), upd_b = Some (Num (- 1)), upd_k = Some (Num 3)\<rparr>
             default_system) = Some e)
   \<and> snd (setParameters \<lparr>upd_m = Some (Num 2), upd_b = Some (Num (- 1)), upd_k = Some (Num 3)\<rparr>
           default_system) = default_system\<lparr>sys_m := Num 2\<rparr>
   \<and> \<not> (\<exists>e. fst (setParameters \<lparr>upd_m = Some (Num 2), upd_b = None, upd_k = None\<rparr>
               default_system) = Some e)
   \<and> snd (setParameters \<lparr>upd_m = Some (Num 2), upd_b = None, upd_k = None\<rparr> default_system)
       = default_system\<lparr>sys_m := Num 2\<rparr>"
  using setParameters_fields
      [of "\<lparr>upd_m = Some (Num 2), upd_b = Some (Num (- 1)), upd_k = Some (Num 3)\<rparr>" default_system]
    setParameters_fields
      [of "\<lparr>upd_m = Some (Num 2), upd_b = None, upd_k = None\<rparr>" default_system]
  by (simp add: passes_def invalid_mass_def invalid_damping_def invalid_springConstant_def
      default_system_def)

section \<open>Forcing selection\<close>

text \<open>A name that is neither a key of the catalog nor a property of \<open>Object.prototype\<close>
  is rejected, and the system is unchanged.\<close>

lemma setForcing_unknown:
  assumes "name \<notin> set (map fst presets_own)" and "name \<notin> set object_prototype_names"
  shows "\<exists>e. setForcing name ps this = (Some e, this) \<and> UnknownForcingPreset name e"
proof -
  from assms(1) have "map_of presets_own name = None"
    by (simp add: map_of_eq_None_iff)
  with assms(2) have "presets name = None"
    by (simp add: presets_def)
  then show ?thesis
    by (simp add: setForcing_def UnknownForcingPreset_def)
qed

text \<open>A key of the catalog replaces the selection: the resolved parameters are the
  preset's defaults overridden by the supplied ones, whatever was selected before.\<close>

lemma setForcing_catalog:
  assumes "map_of presets_own name = Some f"
  shows "setForcing name ps this
           = (None, this\<lparr>forcingName := name, forcingFn := f,
                forcingParams := the (map_of defaultParams_own name)
                                   ++ (case ps of None \<Rightarrow> Map.empty | Some p \<Rightarrow> p)\<rparr>)"
proof -
  from assms have "name \<in> set (map fst presets_own)"
    by (metis map_of_eq_None_iff option.distinct(1) set_map)
  then have "map_of defaultParams_own name \<noteq> None"
    unfolding presets_own_def defaultParams_own_def by auto
  with assms show ?thesis
    by (auto simp: setForcing_def presets_def defaultParams_def)
qed

text \<open>Every property name of \<open>Object.prototype\<close> passes the test \<open>!presets[name]\<close>.\<close>

lemma setForcing_inherited:
  assumes "name \<in> set object_prototype_names"
  shows "fst (setForcing name ps this) = None
       \<and> forcingName (snd (setForcing name ps this)) = name
       \<and> getForcingFunction name = Inr (prototype_member name)"
proof -
  from assms have "map_of presets_own name = None"
    unfolding object_prototype_names_def presets_own_def by auto
  with assms have "presets name = Some (prototype_member name)"
    by (simp add: presets_def)
  then show ?thesis
    by (simp add: setForcing_def getForcingFunction_def Let_def)
qed

text \<open>
  C5. The claim: a name outside the catalog \<open>{none, constant, sine, cosine, step,
  square, impulse}\<close> makes \<open>setForcing\<close> raise UnknownForcingPreset and leaves the
  selection unchanged. The code tests \<open>!presets[name]\<close>, and the lookup also finds what
  the object literal inherits: on the default system \<open>setForcing('toString', {})\<close> does
  not raise and replaces the selection \<open>none\<close> by \<open>toString\<close>, with the inherited
  function as forcing function; \<open>getForcingFunction('toString')\<close> returns that function as
  well.
\<close>

theorem setForcing_inherited_name:
  "constructor empty_config [] = Inr ([default_state], default_system)
   \<and> ''toString'' \<notin> set (map fst presets_own)
   \<and> getForcing default_system = (''none'', Map.empty)
   \<and> setForcing ''toString'' (Some Map.empty) default_system
       = (None, default_system\<lparr>forcingName := ''toString'',
                               forcingFn := prototype_member ''toString'',
                               forcingParams := Map.empty\<rparr>)
   \<and> getForcing (snd (setForcing ''toString'' (Some Map.empty) default_system))
       = (''toString'', Map.empty)
   \<and> getForcingFunction ''toString'' = Inr (prototype_member ''toString'')"
  by (simp add: Let_def constructor_def empty_config_def dflt_def setForcing_def presets_def
      presets_own_def object_prototype_names_def defaultParams_def defaultParams_own_def
      getForcing_def getForcingFunction_def default_system_def default_state_def)

section \<open>Reset\<close>

lemma setForcing_frame:
  "sys_y0 (snd (setForcing name ps this)) = sys_y0 this
   \<and> sys_v0 (snd (setForcing name ps this)) = sys_v0 this"
  by (simp add: setForcing_def Let_def split: option.splits)

lemma step_frame:
  "sys_y0 (snd (snd (step h dt w))) = sys_y0 (snd w)
   \<and> sys_v0 (snd (snd (step h dt w))) = sys_v0 (snd w)"
  by (cases w) (simp add: step_def Let_def split: sum.splits)

lemma exec_frame:
  "sys_y0 (snd (exec h w c)) = sys_y0 (snd w) \<and> sys_v0 (snd (exec h w c)) = sys_v0 (snd w)"
  by (cases c) (simp_all add: step_frame setForcing_frame setParameters_result)

lemma run_frame:
  "sys_y0 (snd (foldl (exec h) w cs)) = sys_y0 (snd w)
   \<and> sys_v0 (snd (foldl (exec h) w cs)) = sys_v0 (snd w)"
  by (induction cs arbitrary: w) (simp_all add: exec_frame)

lemma constructor_initial:
  "constructor c \<sigma>0 = Inr w0 \<Longrightarrow>
     sys_y0 (snd w0) = dflt (cfg_y0 c) (Num 1) \<and> sys_v0 (snd w0) = dflt (cfg_v0 c) (Num 0)"
  by (auto simp: constructor_def Let_def split: if_splits)

lemma reset_result:
  "getState_value (reset w) = \<lparr>st_y = sys_y0 (snd w), st_v = sys_v0 (snd w), st_t = Num 0\<rparr>
   \<and> snd (reset w) = (snd w)\<lparr>sys_state := length (fst w)\<rparr>
   \<and> take (length (fst w)) (fst (reset w)) = fst w"
  by (cases w) (simp add: reset_def getState_value_def getState_def nth_append)

text \<open>
  C7. After the construction from a configuration \<open>c\<close> and any sequence of \<open>step\<close>,
  \<open>setParameters\<close> and \<open>setForcing\<close> calls (failing calls included), \<open>reset()\<close> makes
  \<open>getState()\<close> return exactly \<open>(y0, v0, 0)\<close> for the initial conditions of the
  construction, and changes nothing else: the parameters and the forcing selection
  are the same before and after, the system differs only in the reference to its state
  object, and every object allocated before is untouched.
\<close>

theorem reset_restores_initial_state:
  assumes "constructor c \<sigma>0 = Inr w0"
  shows "let w = foldl (exec h) w0 calls; w' = reset w in
           getState_value w' = \<lparr>st_y = dflt (cfg_y0 c) (Num 1), st_v = dflt (cfg_v0 c) (Num 0),
                                 st_t = Num 0\<rparr>
         \<and> getParameters (snd w') = getParameters (snd w)
         \<and> getForcing (snd w') = getForcing (snd w)
         \<and> forcingFn (snd w') = forcingFn (snd w)
         \<and> snd w' = (snd w)\<lparr>sys_state := length (fst w)\<rparr>
         \<and> take (length (fst w)) (fst w') = fst w"
  using constructor_initial [OF assms] run_frame [of h w0 calls]
  by (simp add: Let_def reset_result getParameters_def getForcing_def)

theorem reset_restores_initial_state_witness:
  "constructor empty_config [] = Inr ([default_state], default_system)
   \<and> getState_value (reset (foldl (exec no_host) ([default_state], default_system)
        [Step (lit 0.01),
         SetParameters \<lparr>upd_m = Some (Num 2), upd_b = Some (Num (- 1)), upd_k = None\<rparr>,
         SetForcing ''sine'' None, Step (lit 0.01)]))
       = default_state"
proof -
  have c: "constructor empty_config [] = Inr ([default_state], default_system)"
    by (simp add: Let_def constructor_def empty_config_def dflt_def default_system_def
        default_state_def)
  show ?thesis
    using c reset_restores_initial_state [OF c, of no_host
        "[Step (lit 0.01),
          SetParameters \<lparr>upd_m = Some (Num 2), upd_b = Some (Num (- 1)), upd_k = None\<rparr>,
          SetForcing ''sine'' None, Step (lit 0.01)]"]
    by (simp add: Let_def dflt_def empty_config_def default_state_def)
qed

section \<open>The integrator computes the RK4 formula\<close>

lemma js_mul_commute: "js_mul a b = js_mul b a"
proof -
  have s: "(sign_neg a \<noteq> sign_neg b) = (sign_neg b \<noteq> sign_neg a)" by auto
  show ?thesis unfolding js_mul_def s by (simp add: mult.commute disj_commute)
qed

lemma js_half_mul: "js_mul (Num 0.5) a = js_div a (Num 2)"
proof -
  have s: "(False \<noteq> sign_neg a) = (sign_neg a \<noteq> False)" by auto
  show ?thesis
    by (cases a) (simp_all add: js_mul_def js_div_def is_zero_def s)
qed

lemma rk4Step_pure:
  "rk4Step s (\<lambda>x. Inr (pair_derivatives (deriv (state_triple x)))) dt
     = Inr (triple_state (rk4_formula deriv (state_triple s) dt))"
  unfolding rk4Step_def rk4_formula_def state_triple_def triple_state_def
    pair_derivatives_def Let_def
  apply (simp only: js_half_mul)
  apply (simp only: js_mul_commute [of _ dt])
  apply simp
  done

lemma rk4_formula_time: "st_t (triple_state (rk4_formula deriv (y, v, t) dt)) = js_add t dt"
  by (simp add: rk4_formula_def triple_state_def Let_def)

lemma round64_half:
  assumes "round64 x = x" and "2 powr (- 1021) \<le> \<bar>x\<bar>"
  shows "round64 (x / 2) = x / 2"
proof -
  have x: "x \<noteq> 0" using assms(2) powr_gt_zero [of 2 "- 1021"] by auto
  with assms(1) have n: "x / ulp x = of_int (rne (x / ulp x))"
    using ulp_pos [of x] by (simp add: round64_def field_simps)
  have "- 1021 \<le> log 2 \<bar>x\<bar>" using assms(2) x by (simp add: le_log_iff)
  then have f: "- 1021 \<le> \<lfloor>log 2 \<bar>x\<bar>\<rfloor>" by (simp add: le_floor_iff)
  have "log 2 \<bar>x / 2\<bar> = log 2 \<bar>x\<bar> - 1" using x by (simp add: log_divide)
  then have "\<lfloor>log 2 \<bar>x / 2\<bar>\<rfloor> = \<lfloor>log 2 \<bar>x\<bar>\<rfloor> - 1" by simp
  with f have "expo (x / 2) = expo x - 1" by (simp add: expo_def)
  then have "ulp (x / 2) = ulp x / 2"
    by (simp add: ulp_def powr_diff)
  then have "(x / 2) / ulp (x / 2) = x / ulp x" by simp
  with n have "(x / 2) / ulp (x / 2) = of_int (rne (x / ulp x))" by simp
  then show ?thesis by (rule round64_exact)
qed

lemma fl_exact:
  assumes "round64 r = r" and "r \<noteq> 0" and "\<bar>r\<bar> < 2 ^ 1024"
  shows "fl n r = Num r"
proof -
  have "\<not> 2 ^ 1024 \<le> \<bar>r\<bar>" using assms(3) by simp
  then show ?thesis
    unfolding fl_def Let_def assms(1) using assms(2) by (simp add: finz_def)
qed

text \<open>
  The specification leaves open in which order the product \<open>1/2 dt k\<close> of a midpoint
  stage is evaluated. The order \<open>(dt / 2) * k\<close> gives the number of the code's
  \<open>(0.5 * k) * dt\<close> whenever neither halving underflows: for binary64 values \<open>d\<close> and
  \<open>k\<close> of a magnitude of at least \<open>2^-1021\<close>.
\<close>

lemma midpoint_grouping:
  assumes "round64 d = d" "2 powr (- 1021) \<le> \<bar>d\<bar>" "\<bar>d\<bar> < 2 ^ 1024"
    and "round64 k = k" "2 powr (- 1021) \<le> \<bar>k\<bar>" "\<bar>k\<bar> < 2 ^ 1024"
  shows "js_mul (js_div (Num d) (Num 2)) (Num k) = js_mul (js_mul (Num 0.5) (Num k)) (Num d)"
proof -
  have d: "d \<noteq> 0" using assms(2) powr_gt_zero [of 2 "- 1021"] by auto
  have k: "k \<noteq> 0" using assms(5) powr_gt_zero [of 2 "- 1021"] by auto
  have "fl (d < 0) (d / 2) = Num (d / 2)"
    using round64_half [OF assms(1,2)] by (rule fl_exact) (use d assms(3) in simp_all)
  then have hd: "js_div (Num d) (Num 2) = Num (d / 2)"
    by (simp add: js_div_def is_zero_def)
  have "fl (k < 0) (k / 2) = Num (k / 2)"
    using round64_half [OF assms(4,5)] by (rule fl_exact) (use k assms(6) in simp_all)
  then have hk: "js_div (Num k) (Num 2) = Num (k / 2)"
    by (simp add: js_div_def is_zero_def)
  have a: "js_mul (Num (d / 2)) (Num k) = fl ((d / 2 < 0) \<noteq> (k < 0)) (d / 2 * k)"
    by (simp add: js_mul_def)
  have b: "js_mul (Num (k / 2)) (Num d) = fl ((k / 2 < 0) \<noteq> (d < 0)) (k / 2 * d)"
    by (simp add: js_mul_def)
  have e: "((d / 2 < 0) \<noteq> (k < 0)) = ((k / 2 < 0) \<noteq> (d < 0))" by auto
  have m: "d / 2 * k = k / 2 * d" by simp
  have "js_mul (Num (d / 2)) (Num k) = js_mul (Num (k / 2)) (Num d)"
    unfolding a b e m ..
  then show ?thesis unfolding js_half_mul hd hk .
qed


section \<open>One step of the system\<close>

text \<open>Every function of the catalog returns the force of its catalog formula.\<close>

lemma catalog_call:
  assumes "is_catalog_fn f"
  shows "call_fn h f t ps = Inr (catalog_forcing h f ps t)"
  using assms
  by (cases f)
    (simp_all add: none_def constant_def sine_def cosine_def step_preset_def square_def
      impulse_def catalog_none_def catalog_constant_def catalog_sine_def catalog_cosine_def
      catalog_step_def catalog_square_def catalog_impulse_def Let_def js_ge_def)

lemma computeDerivatives_spec:
  assumes "is_catalog_fn (forcingFn this)"
  shows "computeDerivatives h this
           = (\<lambda>x. Inr (pair_derivatives
                (spec_derivative this (catalog_forcing h (forcingFn this) (forcingParams this))
                   (state_triple x))))"
  by (intro ext) (simp add: computeDerivatives_def catalog_call [OF assms] Let_def
      pair_derivatives_def spec_derivative_def state_triple_def)

lemma step_catalog:
  assumes "is_catalog_fn (forcingFn this)"
  shows "step h dt (\<sigma>, this)
           = (let s' = triple_state
                    (rk4_formula
                       (spec_derivative this
                          (catalog_forcing h (forcingFn this) (forcingParams this)))
                       (state_triple (\<sigma> ! sys_state this)) dt)
              in (Inr (Suc (length \<sigma>)), \<sigma> @ [s', s'], this\<lparr>sys_state := length \<sigma>\<rparr>))"
  by (simp add: step_def computeDerivatives_spec [OF assms] rk4Step_pure Let_def nth_append)

text \<open>
  A member of \<open>Object.prototype\<close> that has been selected and returns a number at every
  time takes the place of the forcing in the same formula.
\<close>

lemma step_inherited:
  assumes "forcingFn this = prototype_member name"
    and "\<forall>t. call_inherited h name t (forcingParams this) = Inr (forcing t)"
  shows "step h dt (\<sigma>, this)
           = (let s' = triple_state
                    (rk4_formula (spec_derivative this forcing)
                       (state_triple (\<sigma> ! sys_state this)) dt)
              in (Inr (Suc (length \<sigma>)), \<sigma> @ [s', s'], this\<lparr>sys_state := length \<sigma>\<rparr>))"
proof -
  have "computeDerivatives h this
          = (\<lambda>x. Inr (pair_derivatives (spec_derivative this forcing (state_triple x))))"
    by (intro ext) (simp add: computeDerivatives_def assms Let_def pair_derivatives_def
        spec_derivative_def state_triple_def)
  then show ?thesis
    by (simp add: step_def rk4Step_pure Let_def nth_append)
qed

text \<open>
  A forcing function that throws at the time of the state makes \<open>step\<close> throw, and the
  state is not replaced.
\<close>

lemma step_throws:
  assumes "call_fn h (forcingFn this) (st_t (\<sigma> ! sys_state this)) (forcingParams this) = Inl e"
  shows "step h dt (\<sigma>, this) = (Inl e, \<sigma>, this)"
  using assms by (simp add: step_def rk4Step_def computeDerivatives_def Let_def)

text \<open>
  C3. For every store, state, parameters, selection of a function of the catalog and
  \<open>dt\<close>: \<open>step(dt)\<close> computes the state \<open>s'\<close> of the six-stage RK4 formula for the
  derivative function \<open>f(y, v, t) = (v, (-b*v - k*y + forcing(t)) / m)\<close>, where \<open>forcing\<close>
  is the catalog formula of the selection; it makes \<open>s'\<close> the state of the system, with
  the time \<open>t + dt\<close>, and returns a copy at an address \<open>r\<close> of its own: the copy equals
  \<open>s'\<close>, and whatever is written to the object at \<open>r\<close>, \<open>getState()\<close> still returns \<open>s'\<close>.
\<close>

theorem step_rk4_snapshot:
  assumes "is_catalog_fn (forcingFn this)"
  shows "let forcing = catalog_forcing h (forcingFn this) (forcingParams this);
             s' = triple_state
                    (rk4_formula (spec_derivative this forcing)
                       (state_triple (\<sigma> ! sys_state this)) dt);
             this' = this\<lparr>sys_state := length \<sigma>\<rparr>
         in \<exists>r. step h dt (\<sigma>, this) = (Inr r, \<sigma> @ [s', s'], this')
              \<and> st_t s' = js_add (st_t (\<sigma> ! sys_state this)) dt
              \<and> getState_value (\<sigma> @ [s', s'], this') = s'
              \<and> (\<sigma> @ [s', s']) ! r = s'
              \<and> r \<noteq> sys_state this'
              \<and> (\<forall>x. getState_value ((\<sigma> @ [s', s'])[r := x], this') = s')"
proof -
  define s' where "s' = triple_state
                    (rk4_formula
                       (spec_derivative this
                          (catalog_forcing h (forcingFn this) (forcingParams this)))
                       (state_triple (\<sigma> ! sys_state this)) dt)"
  have st: "step h dt (\<sigma>, this)
              = (Inr (Suc (length \<sigma>)), \<sigma> @ [s', s'], this\<lparr>sys_state := length \<sigma>\<rparr>)"
    unfolding s'_def using step_catalog [OF assms, of h dt \<sigma>] by (simp add: Let_def)
  have t': "st_t s' = js_add (st_t (\<sigma> ! sys_state this)) dt"
    unfolding s'_def state_triple_def by (rule rk4_formula_time)
  have obs: "getState_value ((\<sigma> @ [s', s'])[Suc (length \<sigma>) := x],
                this\<lparr>sys_state := length \<sigma>\<rparr>) = s'" for x
    by (simp add: getState_value_def getState_def nth_append list_update_append)
  have obs0: "getState_value (\<sigma> @ [s', s'], this\<lparr>sys_state := length \<sigma>\<rparr>) = s'"
    by (simp add: getState_value_def getState_def nth_append)
  have cp: "(\<sigma> @ [s', s']) ! Suc (length \<sigma>) = s'"
    by (simp add: nth_append)
  have "\<exists>r. step h dt (\<sigma>, this) = (Inr r, \<sigma> @ [s', s'], this\<lparr>sys_state := length \<sigma>\<rparr>)
              \<and> st_t s' = js_add (st_t (\<sigma> ! sys_state this)) dt
              \<and> getState_value (\<sigma> @ [s', s'], this\<lparr>sys_state := length \<sigma>\<rparr>) = s'
              \<and> (\<sigma> @ [s', s']) ! r = s'
              \<and> r \<noteq> sys_state (this\<lparr>sys_state := length \<sigma>\<rparr>)
              \<and> (\<forall>x. getState_value ((\<sigma> @ [s', s'])[r := x],
                        this\<lparr>sys_state := length \<sigma>\<rparr>) = s')"
    using st t' obs obs0 cp by (intro exI [of _ "Suc (length \<sigma>)"]) simp
  then show ?thesis unfolding s'_def Let_def .
qed

text \<open>
  The default system with the step preset from time 0 on, stepped by 1 from the state
  \<open>(1, 0, 0)\<close>: the new time is \<open>0 + 1\<close>.
\<close>

theorem step_rk4_snapshot_witness:
  "is_catalog_fn (forcingFn default_system)
   \<and> (\<exists>r s'. step no_host (Num 1) ([default_state], default_system)
             = (Inr r, [default_state, s', s'], default_system\<lparr>sys_state := 1\<rparr>)
         \<and> st_t s' = js_add (Num 0) (Num 1)
         \<and> r \<noteq> 1
         \<and> (\<forall>x. getState_value ([default_state, s', s'][r := x],
                   default_system\<lparr>sys_state := 1\<rparr>) = s'))"
proof -
  have f: "is_catalog_fn (forcingFn default_system)"
    by (simp add: default_system_def)
  define s' where "s' = triple_state
     (rk4_formula
        (spec_derivative default_system
           (catalog_forcing no_host (forcingFn default_system) (forcingParams default_system)))
        (state_triple ([default_state] ! sys_state default_system)) (Num 1))"
  from step_rk4_snapshot [OF f, of no_host "[default_state]" "Num 1"]
  obtain r where
    "step no_host (Num 1) ([default_state], default_system)
       = (Inr r, [default_state] @ [s', s'], default_system\<lparr>sys_state := length [default_state]\<rparr>)"
    "st_t s' = js_add (st_t ([default_state] ! sys_state default_system)) (Num 1)"
    "r \<noteq> sys_state (default_system\<lparr>sys_state := length [default_state]\<rparr>)"
    "\<forall>x. getState_value (([default_state] @ [s', s'])[r := x],
            default_system\<lparr>sys_state := length [default_state]\<rparr>) = s'"
    unfolding Let_def s'_def by blast
  then have "\<exists>r s'. step no_host (Num 1) ([default_state], default_system)
             = (Inr r, [default_state, s', s'], default_system\<lparr>sys_state := 1\<rparr>)
         \<and> st_t s' = js_add (Num 0) (Num 1)
         \<and> r \<noteq> 1
         \<and> (\<forall>x. getState_value ([default_state, s', s'][r := x],
                   default_system\<lparr>sys_state := 1\<rparr>) = s')"
    by (intro exI [of _ r] exI [of _ s']) (simp add: default_system_def default_state_def)
  with f show ?thesis by blast
qed

section \<open>The presets at their default parameters\<close>

text \<open>
  C8. For every time \<open>t\<close>, negative ones included, each preset evaluated with its
  default parameter set returns the force of the catalog formula: \<open>none\<close> 0, \<open>constant\<close>
  the force, \<open>sine\<close> and \<open>cosine\<close> \<open>amplitude * sin(2 pi frequency t)\<close> and
  \<open>amplitude * cos(2 pi frequency t)\<close>, \<open>step\<close> the amplitude from \<open>stepTime\<close> on,
  \<open>square\<close> \<open>amplitude * (+1 if (t mod period) / period < 0.5 else -1)\<close> with
  \<open>period = 1 / frequency\<close>, \<open>impulse\<close> \<open>amplitude / width\<close> on
  \<open>[impulseTime, impulseTime + width)\<close>. The catalog keys name these seven functions, and
  the default parameter sets are those of the table.
\<close>

theorem presets_default_formulas:
  "call_fn h none_fn t (defaultParams ''none'') = Inr (catalog_none t)
   \<and> call_fn h constant_fn t (defaultParams ''constant'') = Inr (catalog_constant (Num 1) t)
   \<and> call_fn h sine_fn t (defaultParams ''sine'') = Inr (catalog_sine h (Num 1) (Num 1) t)
   \<and> call_fn h cosine_fn t (defaultParams ''cosine'')
       = Inr (catalog_cosine h (Num 1) (Num 1) t)
   \<and> call_fn h step_fn t (defaultParams ''step'') = Inr (catalog_step (Num 1) (Num 1) t)
   \<and> call_fn h square_fn t (defaultParams ''square'')
       = Inr (catalog_square (Num 1) (Num 1) t)
   \<and> call_fn h impulse_fn t (defaultParams ''impulse'')
       = Inr (catalog_impulse (Num 1) (Num 1) (lit 0.01) t)
   \<and> map presets [''none'', ''constant'', ''sine'', ''cosine'', ''step'', ''square'', ''impulse'']
       = map Some [none_fn, constant_fn, sine_fn, cosine_fn, step_fn, square_fn, impulse_fn]
   \<and> defaultParams ''none'' = Map.empty
   \<and> defaultParams ''constant'' = [''force'' \<mapsto> Num 1]
   \<and> defaultParams ''sine'' = [''amplitude'' \<mapsto> Num 1, ''frequency'' \<mapsto> Num 1]
   \<and> defaultParams ''cosine'' = [''amplitude'' \<mapsto> Num 1, ''frequency'' \<mapsto> Num 1]
   \<and> defaultParams ''step'' = [''amplitude'' \<mapsto> Num 1, ''stepTime'' \<mapsto> Num 1]
   \<and> defaultParams ''square'' = [''amplitude'' \<mapsto> Num 1, ''frequency'' \<mapsto> Num 1]
   \<and> defaultParams ''impulse''
       = [''amplitude'' \<mapsto> Num 1, ''impulseTime'' \<mapsto> Num 1, ''width'' \<mapsto> lit 0.01]"
proof -
  have 1: "call_fn h none_fn t (defaultParams ''none'') = Inr (catalog_none t)"
    by (simp add: none_def catalog_none_def)
  have 2: "call_fn h constant_fn t (defaultParams ''constant'')
             = Inr (catalog_constant (Num 1) t)"
    by (simp add: constant_def catalog_constant_def defaultParams_def defaultParams_own_def
        param_def)
  have 3: "call_fn h sine_fn t (defaultParams ''sine'') = Inr (catalog_sine h (Num 1) (Num 1) t)"
    by (simp add: sine_def catalog_sine_def defaultParams_def defaultParams_own_def param_def)
  have 4: "call_fn h cosine_fn t (defaultParams ''cosine'')
             = Inr (catalog_cosine h (Num 1) (Num 1) t)"
    by (simp add: cosine_def catalog_cosine_def defaultParams_def defaultParams_own_def param_def)
  have 5: "call_fn h step_fn t (defaultParams ''step'') = Inr (catalog_step (Num 1) (Num 1) t)"
    by (simp add: step_preset_def catalog_step_def defaultParams_def defaultParams_own_def
        param_def Let_def)
  have 6: "call_fn h square_fn t (defaultParams ''square'')
             = Inr (catalog_square (Num 1) (Num 1) t)"
    by (simp add: square_def catalog_square_def defaultParams_def defaultParams_own_def
        param_def Let_def)
  have 7: "call_fn h impulse_fn t (defaultParams ''impulse'')
             = Inr (catalog_impulse (Num 1) (Num 1) (lit 0.01) t)"
    by (simp add: impulse_def catalog_impulse_def defaultParams_def defaultParams_own_def
        param_def js_ge_def Let_def)
  have 8: "map presets [''none'', ''constant'', ''sine'', ''cosine'', ''step'', ''square'', ''impulse'']
       = map Some [none_fn, constant_fn, sine_fn, cosine_fn, step_fn, square_fn, impulse_fn]"
    by (simp add: presets_def presets_own_def)
  have 9: "defaultParams ''none'' = Map.empty
   \<and> defaultParams ''constant'' = [''force'' \<mapsto> Num 1]
   \<and> defaultParams ''sine'' = [''amplitude'' \<mapsto> Num 1, ''frequency'' \<mapsto> Num 1]
   \<and> defaultParams ''cosine'' = [''amplitude'' \<mapsto> Num 1, ''frequency'' \<mapsto> Num 1]
   \<and> defaultParams ''step'' = [''amplitude'' \<mapsto> Num 1, ''stepTime'' \<mapsto> Num 1]
   \<and> defaultParams ''square'' = [''amplitude'' \<mapsto> Num 1, ''frequency'' \<mapsto> Num 1]
   \<and> defaultParams ''impulse''
       = [''amplitude'' \<mapsto> Num 1, ''impulseTime'' \<mapsto> Num 1, ''width'' \<mapsto> lit 0.01]"
    by (simp add: defaultParams_def defaultParams_own_def)
  from 1 2 3 4 5 6 7 8 9 show ?thesis by (intro conjI) simp_all
qed

section \<open>Derived properties\<close>

lemma round64_zero [simp]: "round64 0 = 0"
  by (simp add: round64_def)

lemma fl_result:
  "fl n r = infinity (r < 0)
   \<or> (\<bar>round64 r\<bar> < 2 ^ 1024 \<and> fl n r = finz (if r = 0 then n else r < 0) (round64 r))"
  by (simp add: fl_def Let_def)

lemma fl_zero [simp]: "fl n 0 = signed_zero n"
  by (simp add: fl_def finz_def)

text \<open>The result of an operation on a non-negative exact value: \<open>+Infinity\<close>, or a finite
  non-negative number of the grid.\<close>

lemma fl_nonneg:
  assumes "0 \<le> r"
  shows "fl False r = PosInf
         \<or> (\<exists>x. fl False r = Num x \<and> 0 \<le> x \<and> x = round64 r \<and> x < 2 ^ 1024)"
proof -
  have x: "0 \<le> round64 r" using assms by (rule round64_nonneg)
  from fl_result [of False r] show ?thesis
  proof
    assume "fl False r = infinity (r < 0)"
    then show ?thesis using assms by (simp add: infinity_def)
  next
    assume a: "\<bar>round64 r\<bar> < 2 ^ 1024
               \<and> fl False r = finz (if r = 0 then False else r < 0) (round64 r)"
    then have "fl False r = Num (round64 r)"
      using assms by (simp add: finz_def signed_zero_def)
    with a x show ?thesis by simp
  qed
qed

lemma fl_pos:
  assumes "2 powr (- 1074) \<le> r"
  shows "fl False r = PosInf \<or> (\<exists>x. fl False r = Num x \<and> 0 < x \<and> x = round64 r)"
proof -
  have "0 < r" using assms powr_gt_zero [of 2 "- 1074"] by linarith
  then have "0 \<le> r" by simp
  from fl_nonneg [OF this] round64_pos [OF assms] show ?thesis by auto
qed

lemma js_gt_zero:
  "js_gt a (Num 0) = (a = PosInf \<or> (\<exists>x. a = Num x \<and> 0 < x))"
  by (cases a) (simp_all add: js_gt_def js_lt_def)

lemma js_mul_pos_grid:
  assumes "js_mul a b = Num x" and "0 < x"
  shows "2 powr (- 1074) \<le> x"
proof -
  from assms(1) have "fl (sign_neg a \<noteq> sign_neg b) (val a * val b) = Num x"
    by (simp add: js_mul_def infinity_def split: if_splits)
  moreover from fl_result [of "sign_neg a \<noteq> sign_neg b" "val a * val b"]
  have "fl (sign_neg a \<noteq> sign_neg b) (val a * val b) = Num x \<Longrightarrow> x = round64 (val a * val b)"
    by (auto simp: infinity_def finz_def signed_zero_def split: if_splits)
  ultimately have "x = round64 (val a * val b)" by simp
  with assms(2) round64_min [of "val a * val b"] show ?thesis by simp
qed

lemma sqrt_ge_tiny:
  assumes "2 powr (- 1074) \<le> x"
  shows "2 powr (- 1074) \<le> sqrt x"
proof (cases "1 \<le> x")
  case True
  then have "1 \<le> sqrt x" by (rule real_sqrt_ge_one)
  moreover have "(2::real) powr (- 1074) \<le> 2 powr 0" by (intro powr_mono) simp_all
  then have "(2::real) powr (- 1074) \<le> 1" by simp
  ultimately show ?thesis by linarith
next
  case False
  have x: "0 < x" using assms powr_gt_zero [of 2 "- 1074"] by linarith
  then have "x * x \<le> x * 1" using False by (intro mult_left_mono) simp_all
  then have "x * x \<le> x" by simp
  then have "sqrt (x * x) \<le> sqrt x" by (rule real_sqrt_le_mono)
  moreover have "sqrt (x * x) = x" using x by simp
  ultimately have "x \<le> sqrt x" by simp
  with assms show ?thesis by linarith
qed

text \<open>The square root of a positive product, and twice it.\<close>

lemma sqrt_product:
  assumes "js_gt (js_mul m k) (Num 0)"
  shows "js_sqrt (js_mul m k) = PosInf
         \<or> (\<exists>s. js_sqrt (js_mul m k) = Num s \<and> 2 powr (- 1074) \<le> s)"
proof -
  from assms consider "js_mul m k = PosInf" | x where "js_mul m k = Num x" "0 < x"
    unfolding js_gt_zero by blast
  then show ?thesis
  proof cases
    case 1
    then show ?thesis by simp
  next
    case 2
    then have "2 powr (- 1074) \<le> x" by (rule js_mul_pos_grid)
    then have s: "2 powr (- 1074) \<le> sqrt x" by (rule sqrt_ge_tiny)
    then have "0 < round64 (sqrt x)" by (rule round64_pos)
    then have "2 powr (- 1074) \<le> round64 (sqrt x)"
      using round64_min [of "sqrt x"] by simp
    then show ?thesis using 2 by simp
  qed
qed

lemma twice_sqrt_product:
  assumes "js_gt (js_mul m k) (Num 0)"
  shows "js_mul (Num 2) (js_sqrt (js_mul m k)) = PosInf
         \<or> (\<exists>x. js_mul (Num 2) (js_sqrt (js_mul m k)) = Num x \<and> 0 < x)"
proof -
  from sqrt_product [OF assms] show ?thesis
  proof (elim disjE exE conjE)
    assume "js_sqrt (js_mul m k) = PosInf"
    then show ?thesis by (simp add: js_mul_def is_zero_def infinity_def)
  next
    fix s assume s: "js_sqrt (js_mul m k) = Num s" "2 powr (- 1074) \<le> s"
    then have "2 powr (- 1074) \<le> 2 * s" using powr_gt_zero [of 2 "- 1074"] by linarith
    from fl_pos [OF this] have "fl False (2 * s) = PosInf \<or> (\<exists>x. fl False (2 * s) = Num x \<and> 0 < x)"
      by auto
    moreover have "0 < s" using s(2) powr_gt_zero [of 2 "- 1074"] by linarith
    ultimately show ?thesis using s(1) by (simp add: js_mul_def)
  qed
qed

lemma zero_damping_zeta:
  assumes "js_gt (js_mul m k) (Num 0)"
  shows "js_div (Num 0) (js_mul (Num 2) (js_sqrt (js_mul m k))) = Num 0"
    and "js_div NegZero (js_mul (Num 2) (js_sqrt (js_mul m k))) = NegZero"
  using twice_sqrt_product [OF assms]
  by (auto simp: js_div_def is_zero_def signed_zero_def)

lemma zero_damping_Q:
  assumes "js_gt (js_mul m k) (Num 0)"
  shows "js_div (js_sqrt (js_mul m k)) (Num 0) = PosInf"
    and "js_div (js_sqrt (js_mul m k)) NegZero = NegInf"
proof -
  have "js_sqrt (js_mul m k) = PosInf \<or> (\<exists>s. js_sqrt (js_mul m k) = Num s \<and> 0 < s)"
  proof -
    from sqrt_product [OF assms] show ?thesis
    proof (elim disjE exE conjE)
      assume "js_sqrt (js_mul m k) = PosInf"
      then show ?thesis by simp
    next
      fix s assume s: "js_sqrt (js_mul m k) = Num s" "2 powr (- 1074) \<le> s"
      then have "0 < s" using powr_gt_zero [of 2 "- 1074"] by linarith
      with s(1) show ?thesis by simp
    qed
  qed
  then have "js_div (js_sqrt (js_mul m k)) (Num 0) = PosInf
             \<and> js_div (js_sqrt (js_mul m k)) NegZero = NegInf"
  proof (elim disjE exE conjE)
    assume "js_sqrt (js_mul m k) = PosInf"
    then show ?thesis by (simp add: js_div_def is_zero_def infinity_def)
  next
    fix s assume "js_sqrt (js_mul m k) = Num s" "0 < s"
    then show ?thesis by (simp add: js_div_def is_zero_def infinity_def)
  qed
  then show "js_div (js_sqrt (js_mul m k)) (Num 0) = PosInf"
    and "js_div (js_sqrt (js_mul m k)) NegZero = NegInf"
    by simp_all
qed

lemma js_mul_values:
  "js_mul PosInf PosInf = PosInf"
  "js_mul (Num a) PosInf = (if a = 0 then NaN else infinity (a < 0))"
  "js_mul PosInf (Num b) = (if b = 0 then NaN else infinity (b < 0))"
  "js_mul (Num a) (Num b) = fl ((a < 0) \<noteq> (b < 0)) (a * b)"
  by (auto simp: js_mul_def is_zero_def infinity_def)

text \<open>The product \<open>4 * m * k\<close> of a positive mass and a positive spring constant.\<close>

lemma four_m_k:
  assumes "js_gt m (Num 0)" and "js_gt k (Num 0)"
  shows "js_mul (js_mul (Num 4) m) k = NaN \<or> js_mul (js_mul (Num 4) m) k = PosInf
         \<or> (\<exists>r x. js_mul (js_mul (Num 4) m) k = Num x \<and> 0 \<le> x \<and> x = round64 r
               \<and> x < 2 ^ 1024)"
proof -
  have m4: "js_mul (Num 4) m = PosInf \<or> (\<exists>z. js_mul (Num 4) m = Num z \<and> 0 \<le> z)"
  proof -
    from assms(1) consider "m = PosInf" | x where "m = Num x" "0 < x"
      unfolding js_gt_zero by blast
    then show ?thesis
    proof cases
      case 1
      then show ?thesis by (simp add: js_mul_values infinity_def)
    next
      case 2
      then have "0 \<le> 4 * x" by simp
      from fl_nonneg [OF this] show ?thesis using 2 by (auto simp: js_mul_values)
    qed
  qed
  from assms(2) consider "k = PosInf" | y where "k = Num y" "0 < y"
    unfolding js_gt_zero by blast
  then show ?thesis
  proof cases
    case 1
    from m4 show ?thesis
    proof (elim disjE exE conjE)
      assume "js_mul (Num 4) m = PosInf"
      then show ?thesis using 1 by (simp add: js_mul_values)
    next
      fix z assume z: "js_mul (Num 4) m = Num z" "0 \<le> z"
      then show ?thesis using 1 by (simp add: js_mul_values infinity_def)
    qed
  next
    case 2
    from m4 show ?thesis
    proof (elim disjE exE conjE)
      assume "js_mul (Num 4) m = PosInf"
      then show ?thesis using 2 by (simp add: js_mul_values infinity_def)
    next
      fix z assume z: "js_mul (Num 4) m = Num z" "0 \<le> z"
      then have "0 \<le> z * y" using 2 by simp
      from fl_nonneg [OF this] show ?thesis using z 2 by (auto simp: js_mul_values)
    qed
  qed
qed

lemma zero_damping_regime:
  assumes "js_gt m (Num 0)" and "js_gt k (Num 0)"
  shows "js_lt (js_abs (js_sub (Num 0) (js_mul (js_mul (Num 4) m) k))) tol
           = js_lt (js_mul (js_mul (Num 4) m) k) tol"
    and "\<not> js_gt (js_sub (Num 0) (js_mul (js_mul (Num 4) m) k)) (Num 0)"
proof -
  define p where "p = js_mul (js_mul (Num 4) m) k"
  define d where "d = js_sub (Num 0) p"
  from four_m_k [OF assms(1,2)]
  consider "p = NaN" | "p = PosInf"
    | r x where "p = Num x" "0 \<le> x" "x = round64 r" "x < 2 ^ 1024"
    unfolding p_def by blast
  then have "js_lt (js_abs d) tol = js_lt p tol \<and> \<not> js_gt d (Num 0)"
  proof cases
    case 1
    then show ?thesis by (simp add: d_def js_sub_def js_add_def js_lt_def js_gt_def)
  next
    case 2
    then show ?thesis by (simp add: d_def js_sub_def js_add_def js_lt_def js_gt_def)
  next
    case 3
    have r: "round64 (- x) = - x" unfolding 3(3) by (rule round64_minus_round64)
    have "d = fl False (- x)"
      unfolding d_def 3(1) by (simp add: js_sub_def js_add_def finz_def signed_zero_def)
    also have "\<dots> = (if x = 0 then Num 0 else Num (- x))"
      using 3(2,4) by (simp add: fl_def r finz_def signed_zero_def Let_def)
    finally have "d = (if x = 0 then Num 0 else Num (- x))" .
    then show ?thesis using 3(1,2) by (auto simp: js_gt_def js_lt_def)
  qed
  then show "js_lt (js_abs (js_sub (Num 0) (js_mul (js_mul (Num 4) m) k))) tol
           = js_lt (js_mul (js_mul (Num 4) m) k) tol"
    and "\<not> js_gt (js_sub (Num 0) (js_mul (js_mul (Num 4) m) k)) (Num 0)"
    unfolding d_def p_def by simp_all
qed

lemma square_of_zero: "js_mul (Num 0) (Num 0) = Num 0" "js_mul NegZero NegZero = Num 0"
  by (simp_all add: js_mul_def signed_zero_def)

text \<open>The three rules of the regime, for the discriminant \<open>d\<close> that the code computes.\<close>

lemma regime_rules:
  "js_lt (js_abs (js_sub (js_mul (sys_b this) (sys_b this))
       (js_mul (js_mul (Num 4) (sys_m this)) (sys_k this)))) (lit (1 / 10 ^ 10))
     \<Longrightarrow> regime (getSystemProperties this) = critical"
  "js_gt (js_sub (js_mul (sys_b this) (sys_b this))
       (js_mul (js_mul (Num 4) (sys_m this)) (sys_k this))) (lit (1 / 10 ^ 10))
     \<Longrightarrow> regime (getSystemProperties this) = overdamped"
  "js_lt (js_sub (js_mul (sys_b this) (sys_b this))
       (js_mul (js_mul (Num 4) (sys_m this)) (sys_k this))) (js_neg (lit (1 / 10 ^ 10)))
     \<Longrightarrow> regime (getSystemProperties this) = underdamped"
proof -
  define d where "d = js_sub (js_mul (sys_b this) (sys_b this))
                        (js_mul (js_mul (Num 4) (sys_m this)) (sys_k this))"
  obtain \<tau> where t: "lit (1 / 10 ^ 10) = Num \<tau>" "0 < \<tau>"
    using lit_tolerance by blast
  have r: "regime (getSystemProperties this)
             = (if js_lt (js_abs d) (Num \<tau>) then critical
                else if js_gt d (Num 0) then overdamped else underdamped)"
    unfolding getSystemProperties_def t d_def by (simp add: Let_def)
  show "js_lt (js_abs (js_sub (js_mul (sys_b this) (sys_b this))
       (js_mul (js_mul (Num 4) (sys_m this)) (sys_k this)))) (lit (1 / 10 ^ 10))
     \<Longrightarrow> regime (getSystemProperties this) = critical"
    unfolding r t d_def [symmetric] by simp
  show "js_gt (js_sub (js_mul (sys_b this) (sys_b this))
       (js_mul (js_mul (Num 4) (sys_m this)) (sys_k this))) (lit (1 / 10 ^ 10))
     \<Longrightarrow> regime (getSystemProperties this) = overdamped"
    unfolding r t d_def [symmetric] using t(2) by (cases d) (simp_all add: js_gt_def js_lt_def)
  show "js_lt (js_sub (js_mul (sys_b this) (sys_b this))
       (js_mul (js_mul (Num 4) (sys_m this)) (sys_k this))) (js_neg (lit (1 / 10 ^ 10)))
     \<Longrightarrow> regime (getSystemProperties this) = underdamped"
    unfolding r t d_def [symmetric] using t(2)
    by (cases d) (simp_all add: js_gt_def js_lt_def finz_def)
qed

lemma round64_four: "round64 4 = 4"
proof -
  have "expo 4 = 2" by (rule expo_eq) simp_all
  then have u: "ulp 4 = 2 powr (- 50)" by (simp add: ulp_def)
  have "(4::real) / 2 powr (- 50) = 4 * 2 powr 50" by (simp add: powr_minus field_simps)
  also have "\<dots> = of_int (2 ^ 52)" using powr_realpow [of 2 50] by simp
  finally show ?thesis using round64_exact [of 4 "2 ^ 52"] unfolding u by simp
qed

lemma fl_small_values: "fl False 1 = Num 1" "fl False 4 = Num 4" "fl False (- 4) = Num (- 4)"
proof -
  have "round64 (- round64 4) = - round64 4" by (rule round64_minus_round64)
  then have m: "round64 (- 4) = - 4" by (simp add: round64_four)
  show "fl False 1 = Num 1" "fl False 4 = Num 4" "fl False (- 4) = Num (- 4)"
    by (simp_all add: fl_def finz_def round64_one round64_four m)
qed

text \<open>
  C2, as the claim states it, fails: the free particle of the specification's tests
  (\<open>m = 1\<close>, \<open>b = 0\<close>, \<open>k = 0\<close>) has zero damping, and \<open>getSystemProperties()\<close> returns
  \<open>zeta = NaN\<close> (\<open>0 / 0\<close>), the regime \<open>critical\<close> (the discriminant is 0) and \<open>Q = NaN\<close>,
  not \<open>zeta = 0\<close>, \<open>underdamped\<close> and \<open>Q = +Infinity\<close>.
\<close>

theorem getSystemProperties_counterexample:
  "constructor free_particle_config []
     = Inr ([\<lparr>st_y = Num 0, st_v = Num 1, st_t = Num 0\<rparr>], free_particle)
   \<and> getParameters free_particle = (Num 1, Num 0, Num 0)
   \<and> zeta (getSystemProperties free_particle) = NaN
   \<and> regime (getSystemProperties free_particle) = critical
   \<and> Q (getSystemProperties free_particle) = NaN"
proof -
  have c: "constructor free_particle_config []
     = Inr ([\<lparr>st_y = Num 0, st_v = Num 1, st_t = Num 0\<rparr>], free_particle)"
    by (simp add: constructor_def free_particle_config_def free_particle_def dflt_def Let_def)
  have p: "getParameters free_particle = (Num 1, Num 0, Num 0)"
    by (simp add: getParameters_def free_particle_def)
  have mk: "js_mul (Num 1) (Num 0) = Num 0"
    by (simp add: js_mul_values signed_zero_def)
  have s: "js_sqrt (Num 0) = Num 0" by simp
  have two: "js_mul (Num 2) (Num 0) = Num 0"
    by (simp add: js_mul_values signed_zero_def)
  have q: "js_div (Num 0) (Num 0) = NaN"
    by (simp add: js_div_def is_zero_def)
  have z: "zeta (getSystemProperties free_particle) = NaN"
    by (simp add: getSystemProperties_def free_particle_def Let_def mk two q)
  have Q: "Q (getSystemProperties free_particle) = NaN"
    by (simp add: getSystemProperties_def free_particle_def Let_def mk q)
  have d: "js_sub (js_mul (Num 0) (Num 0)) (js_mul (js_mul (Num 4) (Num 1)) (Num 0)) = Num 0"
    by (simp add: js_mul_values fl_small_values js_sub_def js_add_def signed_zero_def finz_def)
  have "js_lt (js_abs (js_sub (js_mul (sys_b free_particle) (sys_b free_particle))
          (js_mul (js_mul (Num 4) (sys_m free_particle)) (sys_k free_particle))))
          (lit (1 / 10 ^ 10))"
    unfolding lit_tolerance(1) using lit_tolerance(2) by (simp add: free_particle_def d)
  then have r: "regime (getSystemProperties free_particle) = critical"
    by (rule regime_rules(1))
  from c p z r Q show ?thesis by simp
qed

text \<open>
  C2, amended. \<open>getSystemProperties()\<close> returns \<open>omega0 = sqrt(k/m)\<close>,
  \<open>zeta = b / (2 sqrt(m k))\<close> and \<open>Q = sqrt(m k) / b\<close>, every operation being the rounded
  operation of the numbers (a zero divisor gives an infinity, \<open>0 / 0\<close> gives NaN), and the
  regime from the computed discriminant \<open>d = b * b - 4 * m * k\<close> with the tolerance
  \<open>1e-10\<close>: \<open>critical\<close> for \<open>|d| < tolerance\<close>, \<open>overdamped\<close> for \<open>d > tolerance\<close>,
  \<open>underdamped\<close> for \<open>d < -tolerance\<close>. For a positive mass and a positive spring constant
  whose computed product \<open>m * k\<close> is positive: with the damping \<open>+0\<close> it returns
  \<open>zeta = 0\<close> and \<open>Q = +Infinity\<close>, with the damping \<open>-0\<close> (which the constructor accepts)
  \<open>zeta = -0\<close> and \<open>Q = -Infinity\<close>; in both cases the regime is \<open>critical\<close> when the
  computed \<open>4 * m * k\<close> is below the tolerance, and \<open>underdamped\<close> otherwise.
\<close>

theorem getSystemProperties_formulas:
  "let m = sys_m this; b = sys_b this; k = sys_k this;
       d = js_sub (js_mul b b) (js_mul (js_mul (Num 4) m) k);
       tolerance = lit (1 / 10 ^ 10);
       p = getSystemProperties this
   in omega0 p = js_sqrt (js_div k m)
    \<and> zeta p = js_div b (js_mul (Num 2) (js_sqrt (js_mul m k)))
    \<and> Q p = js_div (js_sqrt (js_mul m k)) b
    \<and> (js_lt (js_abs d) tolerance \<longrightarrow> regime p = critical)
    \<and> (js_gt d tolerance \<longrightarrow> regime p = overdamped)
    \<and> (js_lt d (js_neg tolerance) \<longrightarrow> regime p = underdamped)
    \<and> (js_gt m (Num 0) \<and> js_gt k (Num 0) \<and> js_gt (js_mul m k) (Num 0) \<longrightarrow>
         (b = Num 0 \<longrightarrow> zeta p = Num 0 \<and> Q p = PosInf)
       \<and> (b = NegZero \<longrightarrow> zeta p = NegZero \<and> Q p = NegInf)
       \<and> (b = Num 0 \<or> b = NegZero \<longrightarrow>
            regime p = (if js_lt (js_mul (js_mul (Num 4) m) k) tolerance then critical
                        else underdamped)))"
proof -
  define m where "m = sys_m this"
  define b where "b = sys_b this"
  define k where "k = sys_k this"
  define d where "d = js_sub (js_mul b b) (js_mul (js_mul (Num 4) m) k)"
  define tol where "tol = lit (1 / 10 ^ 10)"
  define p where "p = getSystemProperties this"
  have 1: "omega0 p = js_sqrt (js_div k m)"
    by (simp add: p_def getSystemProperties_def Let_def m_def k_def)
  have 2: "zeta p = js_div b (js_mul (Num 2) (js_sqrt (js_mul m k)))"
    by (simp add: p_def getSystemProperties_def Let_def m_def k_def b_def)
  have 3: "Q p = js_div (js_sqrt (js_mul m k)) b"
    by (simp add: p_def getSystemProperties_def Let_def m_def k_def b_def)
  have r: "regime p = (if js_lt (js_abs d) tol then critical
                       else if js_gt d (Num 0) then overdamped else underdamped)"
    unfolding p_def getSystemProperties_def m_def k_def b_def d_def tol_def
    by (simp add: Let_def)
  have 4: "js_lt (js_abs d) tol \<longrightarrow> regime p = critical"
    unfolding p_def d_def tol_def m_def b_def k_def using regime_rules(1) [of this] by blast
  have 5: "js_gt d tol \<longrightarrow> regime p = overdamped"
    unfolding p_def d_def tol_def m_def b_def k_def using regime_rules(2) [of this] by blast
  have 6: "js_lt d (js_neg tol) \<longrightarrow> regime p = underdamped"
    unfolding p_def d_def tol_def m_def b_def k_def using regime_rules(3) [of this] by blast
  have 7: "(b = Num 0 \<longrightarrow> zeta p = Num 0 \<and> Q p = PosInf)
       \<and> (b = NegZero \<longrightarrow> zeta p = NegZero \<and> Q p = NegInf)
       \<and> (b = Num 0 \<or> b = NegZero \<longrightarrow>
            regime p = (if js_lt (js_mul (js_mul (Num 4) m) k) tol then critical
                        else underdamped))"
    if h: "js_gt m (Num 0)" "js_gt k (Num 0)" "js_gt (js_mul m k) (Num 0)"
  proof -
    have a: "b = Num 0 \<longrightarrow> zeta p = Num 0 \<and> Q p = PosInf"
      unfolding 2 3 using zero_damping_zeta(1) [OF h(3)] zero_damping_Q(1) [OF h(3)] by simp
    have c: "b = NegZero \<longrightarrow> zeta p = NegZero \<and> Q p = NegInf"
      unfolding 2 3 using zero_damping_zeta(2) [OF h(3)] zero_damping_Q(2) [OF h(3)] by simp
    have e: "regime p = (if js_lt (js_mul (js_mul (Num 4) m) k) tol then critical
                         else underdamped)" if "b = Num 0 \<or> b = NegZero"
    proof -
      from that have "js_mul b b = Num 0" using square_of_zero by auto
      then have "d = js_sub (Num 0) (js_mul (js_mul (Num 4) m) k)" by (simp add: d_def)
      then show ?thesis
        unfolding r
        using zero_damping_regime(1) [OF h(1,2), of tol] zero_damping_regime(2) [OF h(1,2)]
        by simp
    qed
    from a c e show ?thesis by blast
  qed
  from 1 2 3 4 5 6 7 have "omega0 p = js_sqrt (js_div k m)
    \<and> zeta p = js_div b (js_mul (Num 2) (js_sqrt (js_mul m k)))
    \<and> Q p = js_div (js_sqrt (js_mul m k)) b
    \<and> (js_lt (js_abs d) tol \<longrightarrow> regime p = critical)
    \<and> (js_gt d tol \<longrightarrow> regime p = overdamped)
    \<and> (js_lt d (js_neg tol) \<longrightarrow> regime p = underdamped)
    \<and> (js_gt m (Num 0) \<and> js_gt k (Num 0) \<and> js_gt (js_mul m k) (Num 0) \<longrightarrow>
         (b = Num 0 \<longrightarrow> zeta p = Num 0 \<and> Q p = PosInf)
       \<and> (b = NegZero \<longrightarrow> zeta p = NegZero \<and> Q p = NegInf)
       \<and> (b = Num 0 \<or> b = NegZero \<longrightarrow>
            regime p = (if js_lt (js_mul (js_mul (Num 4) m) k) tol then critical
                        else underdamped)))"
    by blast
  then show ?thesis
    unfolding Let_def m_def b_def k_def d_def tol_def p_def .
qed

text \<open>The undamped oscillator \<open>m = 1\<close>, \<open>b = 0\<close>, \<open>k = 1\<close> of the test suite: its
  discriminant is \<open>-4\<close>.\<close>

theorem getSystemProperties_formulas_witness:
  "js_gt (Num 1) (Num 0) \<and> js_gt (js_mul (Num 1) (Num 1)) (Num 0)
   \<and> js_lt (js_sub (js_mul (Num 0) (Num 0)) (js_mul (js_mul (Num 4) (Num 1)) (Num 1)))
        (js_neg (lit (1 / 10 ^ 10)))
   \<and> omega0 (getSystemProperties shm_system) = Num 1
   \<and> zeta (getSystemProperties shm_system) = Num 0
   \<and> regime (getSystemProperties shm_system) = underdamped
   \<and> Q (getSystemProperties shm_system) = PosInf"
proof -
  have mk: "js_mul (Num 1) (Num 1) = Num 1"
    by (simp add: js_mul_values fl_small_values)
  have h: "js_gt (Num 1) (Num 0)" "js_gt (js_mul (Num 1) (Num 1)) (Num 0)"
    by (simp_all add: mk js_gt_def)
  have d: "js_sub (js_mul (Num 0) (Num 0)) (js_mul (js_mul (Num 4) (Num 1)) (Num 1)) = Num (- 4)"
    by (simp add: js_mul_values fl_small_values js_sub_def js_add_def signed_zero_def finz_def)
  have "\<bar>round64 (1 / 10 ^ 10) - 1 / 10 ^ 10\<bar> \<le> 1 / 2 ^ 47"
    by (rule round64_error_64) simp
  moreover have "(1::real) / 2 ^ 47 \<le> 1" "(1::real) / 10 ^ 10 \<le> 1" by simp_all
  ultimately have "round64 (1 / 10 ^ 10) < 4" by linarith
  then have n: "js_lt (Num (- 4)) (js_neg (lit (1 / 10 ^ 10)))"
    unfolding lit_tolerance(1) using lit_tolerance(2) by (simp add: finz_def)
  have o: "js_sqrt (js_div (Num 1) (Num 1)) = Num 1"
    by (simp add: js_div_def is_zero_def fl_small_values round64_one)
  note T = getSystemProperties_formulas [of shm_system, unfolded Let_def]
  have s: "sys_m shm_system = Num 1" "sys_b shm_system = Num 0" "sys_k shm_system = Num 1"
    by (simp_all add: shm_system_def)
  from T have "omega0 (getSystemProperties shm_system) = Num 1"
    unfolding s o by blast
  moreover from T h have "zeta (getSystemProperties shm_system) = Num 0
      \<and> Q (getSystemProperties shm_system) = PosInf"
    unfolding s by blast
  moreover from T n have "regime (getSystemProperties shm_system) = underdamped"
    unfolding s d by blast
  ultimately show ?thesis using h n unfolding d by blast
qed

section \<open>Rounding errors of the operations\<close>

lemma fl_error_64:
  assumes "\<bar>r\<bar> \<le> 64"
  shows "is_fin (fl neg r)" and "\<bar>val (fl neg r) - r\<bar> \<le> 1 / 2 ^ 47"
proof -
  have "\<bar>round64 r\<bar> \<le> 65" using assms by (rule round64_le_65)
  moreover have "(65::real) < 2 ^ 1024" by simp
  ultimately have b: "\<bar>round64 r\<bar> < 2 ^ 1024" by linarith
  show "is_fin (fl neg r)" using b by (rule fl_finite)
  show "\<bar>val (fl neg r) - r\<bar> \<le> 1 / 2 ^ 47"
    unfolding fl_finite(2) [OF b] using assms by (rule round64_error_64)
qed

lemma fl_error_128:
  assumes "\<bar>r\<bar> \<le> 128"
  shows "is_fin (fl neg r)" and "\<bar>val (fl neg r) - r\<bar> \<le> 1 / 2 ^ 46"
proof -
  have e: "\<bar>round64 r - r\<bar> \<le> 1 / 2 ^ 46" using assms by (rule round64_error_128)
  moreover have "(1::real) / 2 ^ 46 \<le> 1" by simp
  ultimately have "\<bar>round64 r\<bar> \<le> 129" using assms by linarith
  moreover have "(129::real) < 2 ^ 1024" by simp
  ultimately have b: "\<bar>round64 r\<bar> < 2 ^ 1024" by linarith
  show "is_fin (fl neg r)" using b by (rule fl_finite)
  show "\<bar>val (fl neg r) - r\<bar> \<le> 1 / 2 ^ 46"
    unfolding fl_finite(2) [OF b] by (rule e)
qed

lemma ulp47: "(0::real) \<le> 1 / 2 ^ 47"
  by simp

lemma is_fin_cases: "is_fin a \<Longrightarrow> a \<noteq> NaN \<and> \<not> is_inf a"
  by (cases a) simp_all

lemma js_add_finite:
  assumes "is_fin a" and "is_fin b"
  shows "js_add a b = fl (sign_neg a \<and> sign_neg b) (val a + val b)"
  using is_fin_cases [OF assms(1)] is_fin_cases [OF assms(2)] by (simp add: js_add_def)

lemma js_mul_finite:
  assumes "is_fin a" and "is_fin b"
  shows "js_mul a b = fl (sign_neg a \<noteq> sign_neg b) (val a * val b)"
  using is_fin_cases [OF assms(1)] is_fin_cases [OF assms(2)] by (simp add: js_mul_def)

lemma js_div_finite:
  assumes "is_fin a" and "c \<noteq> 0"
  shows "js_div a (Num c) = fl (sign_neg a \<noteq> (c < 0)) (val a / c)"
  using is_fin_cases [OF assms(1)] assms(2) by (simp add: js_div_def is_zero_def)

lemma js_neg_finite:
  assumes "is_fin a"
  shows "is_fin (js_neg a)" and "val (js_neg a) = - val a"
  using assms by (cases a; simp add: finz_def signed_zero_def)+

lemma approximates_exact: "is_fin a \<Longrightarrow> \<bar>val a\<bar> \<le> B \<Longrightarrow> approximates a (val a) 0 B"
  by (simp add: approximates_def)

lemma approximates_Num: "\<bar>c\<bar> \<le> B \<Longrightarrow> approximates (Num c) c 0 B"
  by (simp add: approximates_def)

lemma approximates_neg: "approximates a x e B \<Longrightarrow> approximates (js_neg a) (- x) e B"
  using js_neg_finite by (auto simp: approximates_def)

lemma approximates_add:
  assumes "approximates a x ea Ba" and "approximates b y eb Bb"
    and "ea + eb + 1 / 2 ^ 47 \<le> e" and "Ba + Bb \<le> B" and "B + e \<le> 64"
  shows "approximates (js_add a b) (x + y) e B"
proof -
  from assms(1,2) have f: "is_fin a" "is_fin b"
    and a: "\<bar>val a - x\<bar> \<le> ea" "\<bar>x\<bar> \<le> Ba" and b: "\<bar>val b - y\<bar> \<le> eb" "\<bar>y\<bar> \<le> Bb"
    by (simp_all add: approximates_def)
  have r: "\<bar>val a + val b\<bar> \<le> 64" using a b assms(3-5) ulp47 by linarith
  note E = fl_error_64 [OF r, of "sign_neg a \<and> sign_neg b"]
  have "\<bar>val (js_add a b) - (x + y)\<bar> \<le> e"
    unfolding js_add_finite [OF f] using E(2) a b assms(3) by linarith
  moreover have "\<bar>x + y\<bar> \<le> B" using a b assms(4) by linarith
  ultimately show ?thesis
    unfolding approximates_def js_add_finite [OF f] using E(1) by simp
qed

lemma approximates_scale:
  assumes "approximates b y eb Bb"
    and "\<bar>c\<bar> * eb + 1 / 2 ^ 47 \<le> e" and "\<bar>c\<bar> * Bb \<le> B" and "B + e \<le> 64"
  shows "approximates (js_mul (Num c) b) (c * y) e B"
proof -
  from assms(1) have f: "is_fin (Num c)" "is_fin b"
    and b: "\<bar>val b - y\<bar> \<le> eb" "\<bar>y\<bar> \<le> Bb"
    by (simp_all add: approximates_def)
  have d: "\<bar>c * val b - c * y\<bar> \<le> \<bar>c\<bar> * eb"
  proof -
    have "\<bar>c * val b - c * y\<bar> = \<bar>c\<bar> * \<bar>val b - y\<bar>"
      by (simp add: abs_mult flip: right_diff_distrib)
    also have "\<dots> \<le> \<bar>c\<bar> * eb" using b(1) by (intro mult_left_mono) simp_all
    finally show ?thesis .
  qed
  have m: "\<bar>c * y\<bar> \<le> \<bar>c\<bar> * Bb"
    unfolding abs_mult using b(2) by (intro mult_left_mono) simp_all
  have "\<bar>c * val b\<bar> \<le> 64" using d m assms(2-4) ulp47 by linarith
  then have r: "\<bar>val (Num c) * val b\<bar> \<le> 64" by simp
  note E = fl_error_64 [OF r, of "sign_neg (Num c) \<noteq> sign_neg b"]
  have "\<bar>val (fl (sign_neg (Num c) \<noteq> sign_neg b) (val (Num c) * val b)) - c * val b\<bar>
          \<le> 1 / 2 ^ 47"
    using E(2) by simp
  then have "\<bar>val (js_mul (Num c) b) - c * y\<bar> \<le> e"
    unfolding js_mul_finite [OF f] using d assms(2) by linarith
  moreover have "\<bar>c * y\<bar> \<le> B" using m assms(3) by linarith
  ultimately show ?thesis
    unfolding approximates_def js_mul_finite [OF f] using E(1) by simp
qed

text \<open>A factor of magnitude at most 1 enlarges neither the error nor the bound.\<close>

lemma approximates_scale_small:
  assumes "approximates b y eb Bb" and "\<bar>c\<bar> \<le> 1"
    and "eb + 1 / 2 ^ 47 \<le> e" and "Bb \<le> B" and "B + e \<le> 64"
  shows "approximates (js_mul (Num c) b) (c * y) e B"
proof -
  from assms(1) have p: "0 \<le> eb" "0 \<le> Bb" by (auto simp: approximates_def)
  have "\<bar>c\<bar> * eb \<le> 1 * eb" using assms(2) p(1) by (rule mult_right_mono)
  moreover have "\<bar>c\<bar> * Bb \<le> 1 * Bb" using assms(2) p(2) by (rule mult_right_mono)
  ultimately have "\<bar>c\<bar> * eb + 1 / 2 ^ 47 \<le> e" "\<bar>c\<bar> * Bb \<le> B"
    using assms(3,4) by simp_all
  with assms(1) show ?thesis using assms(5) by (rule approximates_scale)
qed

lemma approximates_div:
  assumes "approximates a x ea Ba" and "0 < c"
    and "ea / c + 1 / 2 ^ 47 \<le> e" and "Ba / c \<le> B" and "B + e \<le> 64"
  shows "approximates (js_div a (Num c)) (x / c) e B"
proof -
  from assms(1) have f: "is_fin a" and a: "\<bar>val a - x\<bar> \<le> ea" "\<bar>x\<bar> \<le> Ba"
    by (simp_all add: approximates_def)
  have c: "c \<noteq> 0" using assms(2) by simp
  have d: "\<bar>val a / c - x / c\<bar> \<le> ea / c"
  proof -
    have "\<bar>val a / c - x / c\<bar> = \<bar>val a - x\<bar> / c"
      using assms(2) by (simp flip: diff_divide_distrib)
    also have "\<dots> \<le> ea / c" using a(1) assms(2) by (intro divide_right_mono) simp_all
    finally show ?thesis .
  qed
  have m: "\<bar>x / c\<bar> \<le> Ba / c"
    using a(2) assms(2) by (simp add: divide_right_mono)
  have r: "\<bar>val a / c\<bar> \<le> 64" using d m assms(3-5) ulp47 by linarith
  note E = fl_error_64 [OF r, of "sign_neg a \<noteq> (c < 0)"]
  have "\<bar>val (js_div a (Num c)) - x / c\<bar> \<le> e"
    unfolding js_div_finite [OF f c] using E(2) d assms(3) by linarith
  moreover have "\<bar>x / c\<bar> \<le> B" using m assms(4) by linarith
  ultimately show ?thesis
    unfolding approximates_def js_div_finite [OF f c] using E(1) by simp
qed

section \<open>Accuracy on simple harmonic motion\<close>

text \<open>
  The acceleration \<open>(-b*v - k*y + force) / m\<close> of the undamped, unforced oscillator with
  unit mass and unit spring constant, as the code computes it: four rounded operations on
  \<open>y\<close>.
\<close>

lemma shm_acceleration:
  assumes "approximates a y e B" and "is_fin b"
    and "e + 4 / 2 ^ 47 \<le> e'" and "B + e' \<le> 64"
  shows "approximates
           (js_div (js_add (js_sub (js_mul (js_neg (Num 0)) b) (js_mul (Num 1) a)) (Num 0))
              (Num 1)) (- y) e' B"
proof -
  from assms(1) have e: "0 \<le> e" and B: "0 \<le> B" by (auto simp: approximates_def)
  have "js_mul (js_neg (Num 0)) b = signed_zero (True \<noteq> sign_neg b)"
    using assms(2) by (simp add: js_mul_finite finz_def signed_zero_def)
  then have z: "approximates (js_mul (js_neg (Num 0)) b) 0 0 0"
    by (simp add: approximates_def signed_zero_def)
  have p: "approximates (js_mul (Num 1) a) (1 * y) (e + 1 / 2 ^ 47) B"
    using assms(1) by (rule approximates_scale) (use assms(3,4) in simp_all)
  have s1: "approximates (js_sub (js_mul (js_neg (Num 0)) b) (js_mul (Num 1) a)) (0 + - (1 * y))
              (e + 2 / 2 ^ 47) B"
    unfolding js_sub_def using z approximates_neg [OF p]
    by (rule approximates_add) (use assms(3,4) in simp_all)
  have s2: "approximates
              (js_add (js_sub (js_mul (js_neg (Num 0)) b) (js_mul (Num 1) a)) (Num 0))
              (0 + - (1 * y) + 0) (e + 3 / 2 ^ 47) B"
    using s1 approximates_Num [of 0 0]
    by (rule approximates_add) (use assms(3,4) in simp_all)
  have "approximates
          (js_div (js_add (js_sub (js_mul (js_neg (Num 0)) b) (js_mul (Num 1) a)) (Num 0))
             (Num 1)) ((0 + - (1 * y) + 0) / 1) e' B"
    using s2 by (rule approximates_div) (use assms(3,4) in simp_all)
  then show ?thesis by simp
qed

lemma approximates_fin: "approximates a x e B \<Longrightarrow> is_fin a"
  by (simp add: approximates_def)

text \<open>
  One evaluation of the RK4 formula on the oscillator, from a finite state of magnitude
  at most 2 and with a step of magnitude at most 1: the new position and velocity are
  within \<open>10 / 2^47\<close> and \<open>13 / 2^47\<close> of the exact RK4 step, which multiplies \<open>(y, v)\<close> by
  the matrix of \<open>shm_c\<close> and \<open>shm_s\<close>.
\<close>

lemma shm_formula_step:
  assumes "sys_m this = Num 1" "sys_b this = Num 0" "sys_k this = Num 1"
    and "is_fin Y" "is_fin V" "\<bar>val Y\<bar> \<le> 2" "\<bar>val V\<bar> \<le> 2" and "\<bar>d\<bar> \<le> 1"
  shows "\<exists>Y' V'. rk4_formula (spec_derivative this (\<lambda>t. Num 0)) (Y, V, T) (Num d)
                    = (Y', V', js_add T (Num d))
           \<and> approximates Y' (shm_c d * val Y + shm_s d * val V) (10 / 2 ^ 47) 6
           \<and> approximates V' (shm_c d * val V - shm_s d * val Y) (13 / 2 ^ 47) 6"
proof -
  define acc where "acc = (\<lambda>a b. js_div (js_add (js_sub (js_mul (js_neg (Num 0)) b)
                             (js_mul (Num 1) a)) (Num 0)) (Num 1))"
  define y where "y = val Y"
  define v where "v = val V"
  define A1 where "A1 = acc Y V"
  define Y2 where "Y2 = js_add Y (js_mul (Num d) (js_div V (Num 2)))"
  define V2 where "V2 = js_add V (js_mul (Num d) (js_div A1 (Num 2)))"
  define A2 where "A2 = acc Y2 V2"
  define Y3 where "Y3 = js_add Y (js_mul (Num d) (js_div V2 (Num 2)))"
  define V3 where "V3 = js_add V (js_mul (Num d) (js_div A2 (Num 2)))"
  define A3 where "A3 = acc Y3 V3"
  define Y4 where "Y4 = js_add Y (js_mul (Num d) V3)"
  define V4 where "V4 = js_add V (js_mul (Num d) A3)"
  define A4 where "A4 = acc Y4 V4"
  define CY where "CY = js_div (js_add (js_add (js_add V (js_mul (Num 2) V2))
                          (js_mul (Num 2) V3)) V4) (Num 6)"
  define CV where "CV = js_div (js_add (js_add (js_add A1 (js_mul (Num 2) A2))
                          (js_mul (Num 2) A3)) A4) (Num 6)"
  define Y' where "Y' = js_add Y (js_mul (Num d) CY)"
  define V' where "V' = js_add V (js_mul (Num d) CV)"
  define a1 where "a1 = - y"
  define y2 where "y2 = y + d * (v / 2)"
  define v2 where "v2 = v + d * (a1 / 2)"
  define a2 where "a2 = - y2"
  define y3 where "y3 = y + d * (v2 / 2)"
  define v3 where "v3 = v + d * (a2 / 2)"
  define a3 where "a3 = - y3"
  define y4 where "y4 = y + d * v3"
  define v4 where "v4 = v + d * a3"
  define a4 where "a4 = - y4"
  define cy where "cy = (v + 2 * v2 + 2 * v3 + v4) / 6"
  define cv where "cv = (a1 + 2 * a2 + 2 * a3 + a4) / 6"
  have f: "rk4_formula (spec_derivative this (\<lambda>t. Num 0)) (Y, V, T) (Num d)
             = (Y', V', js_add T (Num d))"
    by (simp add: rk4_formula_def spec_derivative_def Let_def assms(1-3) Y'_def V'_def CY_def
        CV_def A4_def V4_def Y4_def A3_def V3_def Y3_def A2_def V2_def Y2_def A1_def acc_def)
  have aY: "approximates Y y 0 2" unfolding y_def using assms(4,6) by (rule approximates_exact)
  have aV: "approximates V v 0 2" unfolding v_def using assms(5,7) by (rule approximates_exact)
  have aA1: "approximates A1 a1 (4 / 2 ^ 47) 2"
    unfolding A1_def acc_def a1_def using aY assms(5) by (rule shm_acceleration) simp_all
  have hV: "approximates (js_div V (Num 2)) (v / 2) (1 / 2 ^ 47) 1"
    using aV by (rule approximates_div) simp_all
  have dV: "approximates (js_mul (Num d) (js_div V (Num 2))) (d * (v / 2)) (2 / 2 ^ 47) 1"
    using hV assms(8) by (rule approximates_scale_small) simp_all
  have aY2: "approximates Y2 y2 (3 / 2 ^ 47) 3"
    unfolding Y2_def y2_def using aY dV by (rule approximates_add) simp_all
  have hA1: "approximates (js_div A1 (Num 2)) (a1 / 2) (3 / 2 ^ 47) 1"
    using aA1 by (rule approximates_div) simp_all
  have dA1: "approximates (js_mul (Num d) (js_div A1 (Num 2))) (d * (a1 / 2)) (4 / 2 ^ 47) 1"
    using hA1 assms(8) by (rule approximates_scale_small) simp_all
  have aV2: "approximates V2 v2 (5 / 2 ^ 47) 3"
    unfolding V2_def v2_def using aV dA1 by (rule approximates_add) simp_all
  have aA2: "approximates A2 a2 (7 / 2 ^ 47) 3"
    unfolding A2_def acc_def a2_def using aY2 approximates_fin [OF aV2]
    by (rule shm_acceleration) simp_all
  have hV2: "approximates (js_div V2 (Num 2)) (v2 / 2) (4 / 2 ^ 47) 2"
    using aV2 by (rule approximates_div) simp_all
  have dV2: "approximates (js_mul (Num d) (js_div V2 (Num 2))) (d * (v2 / 2)) (5 / 2 ^ 47) 2"
    using hV2 assms(8) by (rule approximates_scale_small) simp_all
  have aY3: "approximates Y3 y3 (6 / 2 ^ 47) 4"
    unfolding Y3_def y3_def using aY dV2 by (rule approximates_add) simp_all
  have hA2: "approximates (js_div A2 (Num 2)) (a2 / 2) (5 / 2 ^ 47) 2"
    using aA2 by (rule approximates_div) simp_all
  have dA2: "approximates (js_mul (Num d) (js_div A2 (Num 2))) (d * (a2 / 2)) (6 / 2 ^ 47) 2"
    using hA2 assms(8) by (rule approximates_scale_small) simp_all
  have aV3: "approximates V3 v3 (7 / 2 ^ 47) 4"
    unfolding V3_def v3_def using aV dA2 by (rule approximates_add) simp_all
  have aA3: "approximates A3 a3 (10 / 2 ^ 47) 4"
    unfolding A3_def acc_def a3_def using aY3 approximates_fin [OF aV3]
    by (rule shm_acceleration) simp_all
  have dV3: "approximates (js_mul (Num d) V3) (d * v3) (8 / 2 ^ 47) 4"
    using aV3 assms(8) by (rule approximates_scale_small) simp_all
  have aY4: "approximates Y4 y4 (9 / 2 ^ 47) 6"
    unfolding Y4_def y4_def using aY dV3 by (rule approximates_add) simp_all
  have dA3: "approximates (js_mul (Num d) A3) (d * a3) (11 / 2 ^ 47) 4"
    using aA3 assms(8) by (rule approximates_scale_small) simp_all
  have aV4: "approximates V4 v4 (12 / 2 ^ 47) 6"
    unfolding V4_def v4_def using aV dA3 by (rule approximates_add) simp_all
  have aA4: "approximates A4 a4 (13 / 2 ^ 47) 6"
    unfolding A4_def acc_def a4_def using aY4 approximates_fin [OF aV4]
    by (rule shm_acceleration) simp_all
  have tV2: "approximates (js_mul (Num 2) V2) (2 * v2) (11 / 2 ^ 47) 6"
    using aV2 by (rule approximates_scale) simp_all
  have sV1: "approximates (js_add V (js_mul (Num 2) V2)) (v + 2 * v2) (12 / 2 ^ 47) 8"
    using aV tV2 by (rule approximates_add) simp_all
  have tV3: "approximates (js_mul (Num 2) V3) (2 * v3) (15 / 2 ^ 47) 8"
    using aV3 by (rule approximates_scale) simp_all
  have sV2: "approximates (js_add (js_add V (js_mul (Num 2) V2)) (js_mul (Num 2) V3))
               (v + 2 * v2 + 2 * v3) (28 / 2 ^ 47) 16"
    using sV1 tV3 by (rule approximates_add) simp_all
  have sV3: "approximates
               (js_add (js_add (js_add V (js_mul (Num 2) V2)) (js_mul (Num 2) V3)) V4)
               (v + 2 * v2 + 2 * v3 + v4) (41 / 2 ^ 47) 22"
    using sV2 aV4 by (rule approximates_add) simp_all
  have aCY: "approximates CY cy (8 / 2 ^ 47) 4"
    unfolding CY_def cy_def using sV3 by (rule approximates_div) simp_all
  have dCY: "approximates (js_mul (Num d) CY) (d * cy) (9 / 2 ^ 47) 4"
    using aCY assms(8) by (rule approximates_scale_small) simp_all
  have aY': "approximates Y' (y + d * cy) (10 / 2 ^ 47) 6"
    unfolding Y'_def using aY dCY by (rule approximates_add) simp_all
  have tA2: "approximates (js_mul (Num 2) A2) (2 * a2) (15 / 2 ^ 47) 6"
    using aA2 by (rule approximates_scale) simp_all
  have sA1: "approximates (js_add A1 (js_mul (Num 2) A2)) (a1 + 2 * a2) (20 / 2 ^ 47) 8"
    using aA1 tA2 by (rule approximates_add) simp_all
  have tA3: "approximates (js_mul (Num 2) A3) (2 * a3) (21 / 2 ^ 47) 8"
    using aA3 by (rule approximates_scale) simp_all
  have sA2: "approximates (js_add (js_add A1 (js_mul (Num 2) A2)) (js_mul (Num 2) A3))
               (a1 + 2 * a2 + 2 * a3) (42 / 2 ^ 47) 16"
    using sA1 tA3 by (rule approximates_add) simp_all
  have sA3: "approximates
               (js_add (js_add (js_add A1 (js_mul (Num 2) A2)) (js_mul (Num 2) A3)) A4)
               (a1 + 2 * a2 + 2 * a3 + a4) (56 / 2 ^ 47) 22"
    using sA2 aA4 by (rule approximates_add) simp_all
  have aCV: "approximates CV cv (11 / 2 ^ 47) 4"
    unfolding CV_def cv_def using sA3 by (rule approximates_div) simp_all
  have dCV: "approximates (js_mul (Num d) CV) (d * cv) (12 / 2 ^ 47) 4"
    using aCV assms(8) by (rule approximates_scale_small) simp_all
  have aV': "approximates V' (v + d * cv) (13 / 2 ^ 47) 6"
    unfolding V'_def using aV dCV by (rule approximates_add) simp_all
  have ey: "y + d * cy = shm_c d * y + shm_s d * v"
    unfolding cy_def v4_def a3_def y3_def v3_def a2_def y2_def v2_def a1_def shm_c_def shm_s_def
    by (simp add: power2_eq_square power4_eq_xxxx power3_eq_cube field_simps)
  have ev: "v + d * cv = shm_c d * v - shm_s d * y"
    unfolding cv_def a4_def y4_def v4_def a3_def y3_def v3_def a2_def y2_def v2_def a1_def
      shm_c_def shm_s_def
    by (simp add: power2_eq_square power4_eq_xxxx power3_eq_cube field_simps)
  from f aY' [unfolded ey] aV' [unfolded ev] show ?thesis unfolding y_def v_def by blast
qed

lemma sin_taylor4:
  fixes x :: real
  shows "\<bar>sin x - (x - x ^ 3 / 6)\<bar> \<le> \<bar>x\<bar> ^ 5 / 120"
proof -
  have s: "(\<Sum>m<5. sin_coeff m * x ^ m) = x - x ^ 3 / 6"
    by (simp add: eval_nat_numeral sin_coeff_Suc cos_coeff_Suc field_simps del: of_nat_Suc)
  have f: "inverse (fact 5) * \<bar>x\<bar> ^ 5 = \<bar>x\<bar> ^ 5 / 120"
    by (simp add: fact_numeral)
  show ?thesis
    using Maclaurin_sin_bound [of x 5] unfolding s f .
qed

lemma cos_taylor5:
  fixes x :: real
  shows "\<bar>cos x - (1 - x ^ 2 / 2 + x ^ 4 / 24)\<bar> \<le> \<bar>x\<bar> ^ 6 / 720"
proof -
  obtain t where t: "cos x = (\<Sum>m<6. cos_coeff m * x ^ m) + (cos (t + 1/2 * real 6 * pi) / fact 6) * x ^ 6"
    using Maclaurin_cos_expansion [of x 6] by blast
  have s: "(\<Sum>m<6. cos_coeff m * x ^ m) = 1 - x ^ 2 / 2 + x ^ 4 / 24"
    by (simp add: eval_nat_numeral sin_coeff_Suc cos_coeff_Suc field_simps del: of_nat_Suc)
  have f: "fact 6 = (720::real)"
    by (simp add: fact_numeral)
  define u where "u = cos (t + 1/2 * real 6 * pi)"
  have "cos x - (1 - x ^ 2 / 2 + x ^ 4 / 24) = u * (x ^ 6 / 720)"
    using t unfolding s f u_def by simp
  then have "\<bar>cos x - (1 - x ^ 2 / 2 + x ^ 4 / 24)\<bar> = \<bar>u * (x ^ 6 / 720)\<bar>"
    by (rule arg_cong)
  also have "\<dots> = \<bar>u\<bar> * (\<bar>x\<bar> ^ 6 / 720)"
    by (simp add: abs_mult power_abs)
  also have "\<dots> \<le> 1 * (\<bar>x\<bar> ^ 6 / 720)"
    by (rule mult_right_mono) (simp_all add: u_def)
  finally show ?thesis by simp
qed

lemma cos_lipschitz: "\<bar>cos a - cos b\<bar> \<le> \<bar>a - b\<bar>" for a b :: real
proof -
  have "\<bar>cos a - cos b\<bar> = 2 * \<bar>sin ((a + b) / 2)\<bar> * \<bar>sin ((b - a) / 2)\<bar>"
    unfolding cos_diff_cos by (simp add: abs_mult)
  also have "\<dots> \<le> 2 * 1 * \<bar>(b - a) / 2\<bar>"
    by (intro mult_mono abs_sin_x_le_abs_x) simp_all
  also have "\<dots> = \<bar>a - b\<bar>" by (simp add: abs_minus_commute)
  finally show ?thesis .
qed

lemma shm_norm:
  assumes "0 \<le> d" and "d \<le> 1"
  shows "cmod (Complex (shm_c d) (- shm_s d)) \<le> 1"
proof -
  have i: "(shm_c d)\<^sup>2 + (shm_s d)\<^sup>2 = 1 - d ^ 6 / 72 + d ^ 8 / 576"
    unfolding shm_c_def shm_s_def
    by (simp add: eval_nat_numeral field_simps)
  have "d ^ 2 \<le> 1" using assms by (simp add: power_le_one)
  then have "d ^ 6 * d ^ 2 \<le> d ^ 6 * 1" using assms(1) by (intro mult_left_mono) simp_all
  then have "d ^ 8 \<le> d ^ 6" by (simp flip: power_add)
  moreover have "0 \<le> d ^ 6" using assms(1) by simp
  ultimately have "d ^ 8 / 576 \<le> d ^ 6 / 72" by linarith
  then have "(shm_c d)\<^sup>2 + (shm_s d)\<^sup>2 \<le> 1" unfolding i by linarith
  then show ?thesis by (simp add: cmod_def)
qed

lemma shm_local_error:
  assumes "0 \<le> d" and "d \<le> 1 / 64"
  shows "cmod (Complex (shm_c d) (- shm_s d) - cis (- d)) \<le> 1 / 10 ^ 11"
proof -
  let ?w = "Complex (shm_c d) (- shm_s d)"
  have p5: "d ^ 5 \<le> (1 / 64) ^ 5" using assms(2,1) by (rule power_mono)
  have p6: "d ^ 6 \<le> (1 / 64) ^ 6" using assms(2,1) by (rule power_mono)
  have "cmod (?w - cis (- d)) \<le> \<bar>Re (?w - cis (- d))\<bar> + \<bar>Im (?w - cis (- d))\<bar>"
    by (rule cmod_le)
  also have "\<dots> = \<bar>cos d - shm_c d\<bar> + \<bar>sin d - shm_s d\<bar>"
    by (simp add: abs_minus_commute)
  also have "\<dots> \<le> \<bar>d\<bar> ^ 6 / 720 + \<bar>d\<bar> ^ 5 / 120"
    using cos_taylor5 [of d] sin_taylor4 [of d] unfolding shm_c_def shm_s_def
    by (intro add_mono)
  also have "\<dots> = d ^ 6 / 720 + d ^ 5 / 120" using assms(1) by simp
  also have "\<dots> \<le> (1 / 64) ^ 6 / 720 + (1 / 64) ^ 5 / 120"
    using p5 p6 by (intro add_mono divide_right_mono) simp_all
  also have "\<dots> \<le> 1 / 10 ^ 11"
    by (simp add: power_divide)
  finally show ?thesis .
qed

lemma shm_global_error:
  assumes "0 \<le> d" and "d \<le> 1 / 64"
  shows "cmod (Complex (shm_c d) (- shm_s d) ^ n - cis (- (real n * d))) \<le> real n / 10 ^ 11"
proof (induction n)
  case 0
  then show ?case by simp
next
  case (Suc n)
  let ?w = "Complex (shm_c d) (- shm_s d)"
  have d1: "d \<le> 1" using assms(2) by simp
  have c: "cis (- (real (Suc n) * d)) = cis (- d) * cis (- (real n * d))"
    by (simp add: cis_mult algebra_simps)
  have "?w ^ Suc n - cis (- (real (Suc n) * d))
          = ?w * (?w ^ n - cis (- (real n * d))) + (?w - cis (- d)) * cis (- (real n * d))"
    unfolding c by (simp add: algebra_simps)
  then have "cmod (?w ^ Suc n - cis (- (real (Suc n) * d)))
          \<le> cmod (?w * (?w ^ n - cis (- (real n * d))))
            + cmod ((?w - cis (- d)) * cis (- (real n * d)))"
    by (simp only: norm_triangle_ineq)
  also have "\<dots> = cmod ?w * cmod (?w ^ n - cis (- (real n * d))) + cmod (?w - cis (- d))"
    by (simp only: norm_mult norm_cis mult_1_right)
  also have "\<dots> \<le> 1 * (real n / 10 ^ 11) + 1 / 10 ^ 11"
    by (intro add_mono mult_mono shm_norm [OF assms(1) d1] shm_local_error [OF assms] Suc.IH)
      simp_all
  also have "\<dots> = real (Suc n) / 10 ^ 11"
    by (simp add: add_divide_distrib)
  finally show ?case .
qed

lemma foldl_replicate_Suc:
  "foldl f a (replicate (Suc n) x) = f (foldl f a (replicate n x)) x"
proof -
  have "replicate (Suc n) x = replicate n x @ [x]"
    by (simp add: replicate_append_same)
  then show ?thesis by simp
qed

text \<open>One call of \<open>step\<close> on the oscillator.\<close>

lemma shm_exec:
  assumes "sys_m this = Num 1" "sys_b this = Num 0" "sys_k this = Num 1"
    and "forcingFn this = none_fn"
    and "is_fin (st_y s)" "is_fin (st_v s)" "\<bar>val (st_y s)\<bar> \<le> 2" "\<bar>val (st_v s)\<bar> \<le> 2"
    and "\<bar>d\<bar> \<le> 1" and "\<sigma> ! sys_state this = s"
  shows "\<exists>\<sigma>' this' s'. exec H (\<sigma>, this) (Step (Num d)) = (\<sigma>', this')
           \<and> sys_m this' = Num 1 \<and> sys_b this' = Num 0 \<and> sys_k this' = Num 1
           \<and> forcingFn this' = none_fn
           \<and> \<sigma>' ! sys_state this' = s'
           \<and> approximates (st_y s') (shm_c d * val (st_y s) + shm_s d * val (st_v s))
                (10 / 2 ^ 47) 6
           \<and> approximates (st_v s') (shm_c d * val (st_v s) - shm_s d * val (st_y s))
                (13 / 2 ^ 47) 6
           \<and> st_t s' = js_add (st_t s) (Num d)"
proof -
  have c: "is_catalog_fn (forcingFn this)" by (simp add: assms(4))
  have n: "catalog_forcing H (forcingFn this) (forcingParams this) = (\<lambda>t. Num 0)"
    by (rule ext) (simp add: assms(4) catalog_none_def)
  obtain Y' V' where
    f: "rk4_formula (spec_derivative this (\<lambda>t. Num 0)) (st_y s, st_v s, st_t s) (Num d)
          = (Y', V', js_add (st_t s) (Num d))"
    and a: "approximates Y' (shm_c d * val (st_y s) + shm_s d * val (st_v s)) (10 / 2 ^ 47) 6"
      "approximates V' (shm_c d * val (st_v s) - shm_s d * val (st_y s)) (13 / 2 ^ 47) 6"
    using shm_formula_step [OF assms(1-3,5-9), of "st_t s"] by blast
  define s' where "s' = \<lparr>st_y = Y', st_v = V', st_t = js_add (st_t s) (Num d)\<rparr>"
  have "exec H (\<sigma>, this) (Step (Num d)) = (\<sigma> @ [s', s'], this\<lparr>sys_state := length \<sigma>\<rparr>)"
    by (simp add: step_catalog [OF c] n assms(10) state_triple_def f triple_state_def s'_def
        Let_def)
  moreover have "(\<sigma> @ [s', s']) ! sys_state (this\<lparr>sys_state := length \<sigma>\<rparr>) = s'"
    by (simp add: nth_append)
  ultimately show ?thesis
    using a assms(1-4) by (intro exI [of _ "\<sigma> @ [s', s']"]
        exI [of _ "this\<lparr>sys_state := length \<sigma>\<rparr>"] exI [of _ s']) (simp add: s'_def)
qed

text \<open>
  The state after \<open>n\<close> steps: position and velocity are within \<open>n / 2^42\<close> of the exact
  RK4 iterate, the \<open>n\<close>-th power of the step matrix, and the time is within \<open>n / 2^46\<close>
  of \<open>n * d\<close>.
\<close>

lemma shm_run:
  assumes "0 \<le> d" and "d \<le> 1 / 64"
    and "sys_m this0 = Num 1" "sys_b this0 = Num 0" "sys_k this0 = Num 1"
    and "forcingFn this0 = none_fn"
    and "\<sigma>0 ! sys_state this0 = \<lparr>st_y = Num 1, st_v = Num 0, st_t = Num 0\<rparr>"
    and "n \<le> 8000"
  shows "\<exists>\<sigma> this s. foldl (exec H) (\<sigma>0, this0) (replicate n (Step (Num d))) = (\<sigma>, this)
           \<and> sys_m this = Num 1 \<and> sys_b this = Num 0 \<and> sys_k this = Num 1
           \<and> forcingFn this = none_fn
           \<and> \<sigma> ! sys_state this = s
           \<and> is_fin (st_y s) \<and> is_fin (st_v s) \<and> is_fin (st_t s)
           \<and> cmod (Complex (val (st_y s)) (val (st_v s)) - Complex (shm_c d) (- shm_s d) ^ n)
               \<le> real n / 2 ^ 42
           \<and> \<bar>val (st_t s) - real n * d\<bar> \<le> real n / 2 ^ 46"
  using assms(8)
proof (induction n)
  case 0
  have "Complex 1 0 = 1" by (simp add: complex_eq_iff)
  then show ?case using assms(3-7) by simp
next
  case (Suc n)
  let ?w = "Complex (shm_c d) (- shm_s d)"
  from Suc.prems have n: "n \<le> 8000" by simp
  from Suc.IH [OF n] obtain \<sigma> this s where
    run: "foldl (exec H) (\<sigma>0, this0) (replicate n (Step (Num d))) = (\<sigma>, this)"
    and par: "sys_m this = Num 1" "sys_b this = Num 0" "sys_k this = Num 1"
      "forcingFn this = none_fn"
    and s: "\<sigma> ! sys_state this = s"
    and fin: "is_fin (st_y s)" "is_fin (st_v s)" "is_fin (st_t s)"
    and z: "cmod (Complex (val (st_y s)) (val (st_v s)) - ?w ^ n) \<le> real n / 2 ^ 42"
    and t: "\<bar>val (st_t s) - real n * d\<bar> \<le> real n / 2 ^ 46"
    by blast
  define y where "y = val (st_y s)"
  define v where "v = val (st_v s)"
  have d1: "d \<le> 1" using assms(2) by simp
  have ad: "\<bar>d\<bar> \<le> 1" using assms(1) d1 by simp
  have w1: "cmod ?w \<le> 1" using assms(1) d1 by (rule shm_norm)
  have wn: "cmod (?w ^ n) \<le> 1"
    unfolding norm_power using w1 by (simp add: power_le_one)
  have rn: "real n \<le> 8000" using n by simp
  have small: "real n / 2 ^ 42 \<le> 1" using rn by simp
  have "cmod (Complex y v) \<le> cmod (?w ^ n) + cmod (Complex y v - ?w ^ n)"
    using norm_triangle_ineq [of "?w ^ n" "Complex y v - ?w ^ n"] by simp
  then have cz: "cmod (Complex y v) \<le> 2"
    using wn z small unfolding y_def v_def by linarith
  have "\<bar>y\<bar> \<le> cmod (Complex y v)" using abs_Re_le_cmod [of "Complex y v"] by simp
  then have by2: "\<bar>val (st_y s)\<bar> \<le> 2" using cz unfolding y_def by linarith
  have "\<bar>v\<bar> \<le> cmod (Complex y v)" using abs_Im_le_cmod [of "Complex y v"] by simp
  then have bv2: "\<bar>val (st_v s)\<bar> \<le> 2" using cz unfolding v_def by linarith
  from shm_exec [OF par fin(1,2) by2 bv2 ad s, of H]
  obtain \<sigma>' this' s' where
    ex: "exec H (\<sigma>, this) (Step (Num d)) = (\<sigma>', this')"
    and par': "sys_m this' = Num 1" "sys_b this' = Num 0" "sys_k this' = Num 1"
      "forcingFn this' = none_fn"
    and s': "\<sigma>' ! sys_state this' = s'"
    and ay: "approximates (st_y s') (shm_c d * y + shm_s d * v) (10 / 2 ^ 47) 6"
    and av: "approximates (st_v s') (shm_c d * v - shm_s d * y) (13 / 2 ^ 47) 6"
    and t': "st_t s' = js_add (st_t s) (Num d)"
    unfolding y_def v_def by blast
  define y' where "y' = val (st_y s')"
  define v' where "v' = val (st_v s')"
  have fy: "is_fin (st_y s')" and ey: "\<bar>y' - (shm_c d * y + shm_s d * v)\<bar> \<le> 10 / 2 ^ 47"
    using ay by (simp_all add: approximates_def y'_def)
  have fv: "is_fin (st_v s')" and ev: "\<bar>v' - (shm_c d * v - shm_s d * y)\<bar> \<le> 13 / 2 ^ 47"
    using av by (simp_all add: approximates_def v'_def)
  have wz: "?w * Complex y v = Complex (shm_c d * y + shm_s d * v) (shm_c d * v - shm_s d * y)"
    by (simp add: complex_eq_iff)
  have "cmod (Complex y' v' - ?w * Complex y v)
          \<le> \<bar>Re (Complex y' v' - ?w * Complex y v)\<bar> + \<bar>Im (Complex y' v' - ?w * Complex y v)\<bar>"
    by (rule cmod_le)
  also have "\<dots> = \<bar>y' - (shm_c d * y + shm_s d * v)\<bar> + \<bar>v' - (shm_c d * v - shm_s d * y)\<bar>"
    unfolding wz by simp
  also have "\<dots> \<le> 10 / 2 ^ 47 + 13 / 2 ^ 47" using ey ev by (rule add_mono)
  also have "\<dots> \<le> 1 / 2 ^ 42" by simp
  finally have loc: "cmod (Complex y' v' - ?w * Complex y v) \<le> 1 / 2 ^ 42" .
  have "Complex y' v' - ?w ^ Suc n
          = (Complex y' v' - ?w * Complex y v) + ?w * (Complex y v - ?w ^ n)"
    by (simp add: algebra_simps)
  then have "cmod (Complex y' v' - ?w ^ Suc n)
          \<le> cmod (Complex y' v' - ?w * Complex y v) + cmod (?w * (Complex y v - ?w ^ n))"
    by (simp only: norm_triangle_ineq)
  also have "\<dots> = cmod (Complex y' v' - ?w * Complex y v)
                    + cmod ?w * cmod (Complex y v - ?w ^ n)"
    by (simp only: norm_mult)
  also have "\<dots> \<le> 1 / 2 ^ 42 + 1 * (real n / 2 ^ 42)"
    using z unfolding y_def [symmetric] v_def [symmetric]
    by (intro add_mono mult_mono loc w1) simp_all
  also have "\<dots> = real (Suc n) / 2 ^ 42" by (simp add: add_divide_distrib)
  finally have z': "cmod (Complex y' v' - ?w ^ Suc n) \<le> real (Suc n) / 2 ^ 42" .
  have nd: "real n * d \<le> 8000 * (1 / 64)"
    using rn assms(1,2) by (intro mult_mono) simp_all
  have "real n / 2 ^ 46 \<le> 1" using rn by simp
  moreover have "8000 * (1 / 64) = (125::real)" by simp
  moreover have "0 \<le> real n * d" using assms(1) by simp
  ultimately have "\<bar>val (st_t s) + d\<bar> \<le> 128" using t nd assms(1,2) by linarith
  then have r: "\<bar>val (st_t s) + val (Num d)\<bar> \<le> 128" by simp
  note E = fl_error_128 [OF r, of "sign_neg (st_t s) \<and> sign_neg (Num d)"]
  have tf: "st_t s' = fl (sign_neg (st_t s) \<and> sign_neg (Num d)) (val (st_t s) + val (Num d))"
    unfolding t' using fin(3) by (intro js_add_finite) simp_all
  have ft: "is_fin (st_t s')" unfolding tf by (rule E(1))
  have "\<bar>val (st_t s') - (val (st_t s) + d)\<bar> \<le> 1 / 2 ^ 46"
    unfolding tf using E(2) by simp
  moreover have "real (Suc n) * d = real n * d + d" by (simp add: algebra_simps)
  moreover have "real (Suc n) / 2 ^ 46 = real n / 2 ^ 46 + 1 / 2 ^ 46"
    by (simp add: add_divide_distrib)
  ultimately have tt: "\<bar>val (st_t s') - real (Suc n) * d\<bar> \<le> real (Suc n) / 2 ^ 46"
    using t by linarith
  have "foldl (exec H) (\<sigma>0, this0) (replicate (Suc n) (Step (Num d))) = (\<sigma>', this')"
    unfolding foldl_replicate_Suc run by (rule ex)
  then show ?case
    using par' s' fy fv ft z' tt unfolding y'_def v'_def by blast
qed

text \<open>The number that the literal \<open>0.01\<close> denotes.\<close>

lemma hundredth_bounds:
  "round64 (1 / 100) \<le> 1 / 64" "\<bar>round64 (1 / 100) - 1 / 100\<bar> \<le> 1 / 2 ^ 59"
proof -
  have p: "(2::real) powr of_int (- 6) = 1 / 64"
    using powr_minus_divide [of 2 "6::real"] powr_realpow [of 2 6] by simp
  have q: "(2::real) powr (of_int (- 6) - 53) = 1 / 2 ^ 59"
    using powr_minus_divide [of 2 "59::real"] powr_realpow [of 2 59] by simp
  have "\<bar>1 / 100 :: real\<bar> \<le> 2 powr of_int (- 6)" unfolding p by simp
  then have "\<bar>round64 (1 / 100) - 1 / 100\<bar> \<le> 2 powr (of_int (- 6) - 53)"
    by (rule round64_error_bound) simp
  then show e: "\<bar>round64 (1 / 100) - 1 / 100\<bar> \<le> 1 / 2 ^ 59" unfolding q .
  have "(1::real) / 100 + 1 / 2 ^ 59 \<le> 1 / 64" by simp
  with e show "round64 (1 / 100) \<le> 1 / 64" by linarith
qed

lemma getState_value_state: "getState_value (\<sigma>, this) = \<sigma> ! sys_state this"
  by (simp add: getState_value_def getState_def nth_append)

lemma shm_accuracy:
  assumes "constructor shm_config \<sigma>0 = Inr w0" and "real n / 100 \<le> 10 * (2 * pi)"
  shows "\<exists>s. getState_value (foldl (exec H) w0 (replicate n (Step (lit 0.01)))) = s
           \<and> is_fin (st_y s) \<and> is_fin (st_t s)
           \<and> \<bar>val (st_y s) - cos (val (st_t s))\<bar> < 1 / 1000
           \<and> \<bar>val (st_y s) - cos (real n / 100)\<bar> < 1 / 1000
           \<and> \<bar>val (st_t s) - real n / 100\<bar> < 1 / 10 ^ 9"
proof -
  define d where "d = round64 (1 / 100)"
  let ?w = "Complex (shm_c d) (- shm_s d)"
  let ?s0 = "\<lparr>st_y = Num 1, st_v = Num 0, st_t = Num 0\<rparr>"
  let ?sys = "shm_system\<lparr>sys_state := length \<sigma>0\<rparr>"
  have l: "lit 0.01 = Num d" using lit_hundredth(1) by (simp add: d_def)
  have d0: "0 \<le> d" using lit_hundredth(2) by (simp add: d_def)
  have d64: "d \<le> 1 / 64" unfolding d_def by (rule hundredth_bounds(1))
  have dd: "\<bar>d - 1 / 100\<bar> \<le> 1 / 2 ^ 59" unfolding d_def by (rule hundredth_bounds(2))
  have w0: "w0 = (\<sigma>0 @ [?s0], ?sys)"
    using assms(1)
    by (simp add: constructor_def shm_config_def shm_system_def dflt_def Let_def)
  have "real n \<le> 100 * (10 * (2 * pi))" using assms(2) by simp
  also have "\<dots> < 100 * (10 * (2 * 4))" using pi_less_4 by simp
  finally have rn: "real n \<le> 8000" by simp
  then have n: "n \<le> 8000" by simp
  have "\<exists>\<sigma> this s. foldl (exec H) (\<sigma>0 @ [?s0], ?sys) (replicate n (Step (Num d))) = (\<sigma>, this)
           \<and> sys_m this = Num 1 \<and> sys_b this = Num 0 \<and> sys_k this = Num 1
           \<and> forcingFn this = none_fn
           \<and> \<sigma> ! sys_state this = s
           \<and> is_fin (st_y s) \<and> is_fin (st_v s) \<and> is_fin (st_t s)
           \<and> cmod (Complex (val (st_y s)) (val (st_v s)) - ?w ^ n) \<le> real n / 2 ^ 42
           \<and> \<bar>val (st_t s) - real n * d\<bar> \<le> real n / 2 ^ 46"
    using d0 d64 by (rule shm_run) (simp_all add: shm_system_def nth_append n)
  then obtain \<sigma> this s where
    run: "foldl (exec H) (\<sigma>0 @ [?s0], ?sys) (replicate n (Step (Num d))) = (\<sigma>, this)"
    and s: "\<sigma> ! sys_state this = s"
    and fin: "is_fin (st_y s)" "is_fin (st_t s)"
    and z: "cmod (Complex (val (st_y s)) (val (st_v s)) - ?w ^ n) \<le> real n / 2 ^ 42"
    and t: "\<bar>val (st_t s) - real n * d\<bar> \<le> real n / 2 ^ 46"
    by blast
  have g: "getState_value (foldl (exec H) w0 (replicate n (Step (lit 0.01)))) = s"
    unfolding w0 l run getState_value_state by (rule s)
  have "\<bar>val (st_y s) - Re (?w ^ n)\<bar> = \<bar>Re (Complex (val (st_y s)) (val (st_v s)) - ?w ^ n)\<bar>"
    by simp
  also have "\<dots> \<le> cmod (Complex (val (st_y s)) (val (st_v s)) - ?w ^ n)"
    by (rule abs_Re_le_cmod)
  finally have A: "\<bar>val (st_y s) - Re (?w ^ n)\<bar> \<le> real n / 2 ^ 42" using z by linarith
  have "\<bar>Re (?w ^ n) - cos (real n * d)\<bar> = \<bar>Re (?w ^ n - cis (- (real n * d)))\<bar>"
    by simp
  also have "\<dots> \<le> cmod (?w ^ n - cis (- (real n * d)))"
    by (rule abs_Re_le_cmod)
  also have "\<dots> \<le> real n / 10 ^ 11"
    using d0 d64 by (rule shm_global_error)
  finally have B: "\<bar>Re (?w ^ n) - cos (real n * d)\<bar> \<le> real n / 10 ^ 11" .
  have "\<bar>cos (real n * d) - cos (val (st_t s))\<bar> \<le> \<bar>real n * d - val (st_t s)\<bar>"
    by (rule cos_lipschitz)
  then have C: "\<bar>cos (real n * d) - cos (val (st_t s))\<bar> \<le> real n / 2 ^ 46"
    using t by linarith
  have "real n * d - real n / 100 = real n * (d - 1 / 100)"
    by (simp add: algebra_simps)
  then have "\<bar>real n * d - real n / 100\<bar> = \<bar>real n * (d - 1 / 100)\<bar>"
    by (rule arg_cong)
  also have "\<dots> = real n * \<bar>d - 1 / 100\<bar>"
    by (simp only: abs_mult abs_of_nat)
  also have "\<dots> \<le> real n * (1 / 2 ^ 59)"
    using dd by (intro mult_left_mono) simp_all
  finally have E: "\<bar>real n * d - real n / 100\<bar> \<le> real n / 2 ^ 59" by simp
  have "\<bar>cos (real n * d) - cos (real n / 100)\<bar> \<le> \<bar>real n * d - real n / 100\<bar>"
    by (rule cos_lipschitz)
  then have D: "\<bar>cos (real n * d) - cos (real n / 100)\<bar> \<le> real n / 2 ^ 59"
    using E by linarith
  have b: "real n / 2 ^ 42 \<le> 1 / 10 ^ 6" "real n / 10 ^ 11 \<le> 1 / 10 ^ 6"
    "real n / 2 ^ 46 \<le> 2 / 10 ^ 10" "real n / 2 ^ 59 \<le> 1 / 10 ^ 10"
  proof -
    have "real n / 2 ^ 42 \<le> 8000 / 2 ^ 42" using rn by (rule divide_right_mono) simp
    then show "real n / 2 ^ 42 \<le> 1 / 10 ^ 6" by simp
    have "real n / 10 ^ 11 \<le> 8000 / 10 ^ 11" using rn by (rule divide_right_mono) simp
    then show "real n / 10 ^ 11 \<le> 1 / 10 ^ 6" by simp
    have "real n / 2 ^ 46 \<le> 8000 / 2 ^ 46" using rn by (rule divide_right_mono) simp
    then show "real n / 2 ^ 46 \<le> 2 / 10 ^ 10" by simp
    have "real n / 2 ^ 59 \<le> 8000 / 2 ^ 59" using rn by (rule divide_right_mono) simp
    then show "real n / 2 ^ 59 \<le> 1 / 10 ^ 10" by simp
  qed
  have k: "(1::real) / 10 ^ 6 = 1 / 1000000" "(1::real) / 10 ^ 10 = 1 / 10000000000"
    "(2::real) / 10 ^ 10 = 2 / 10000000000" "(1::real) / 10 ^ 9 = 1 / 1000000000"
    by simp_all
  have 1: "\<bar>val (st_y s) - cos (val (st_t s))\<bar> < 1 / 1000"
    using A B C b unfolding k by linarith
  have 2: "\<bar>val (st_y s) - cos (real n / 100)\<bar> < 1 / 1000"
    using A B D b unfolding k by linarith
  have 3: "\<bar>val (st_t s) - real n / 100\<bar> < 1 / 10 ^ 9"
    using t E b unfolding k by linarith
  from g fin 1 2 3 show ?thesis by blast
qed

text \<open>
  C9. The system \<open>m = 1\<close>, \<open>b = 0\<close>, \<open>k = 1\<close>, \<open>y0 = 1\<close>, \<open>v0 = 0\<close> without forcing, stepped
  \<open>n\<close> times with \<open>dt = 0.01\<close>, every operation of every step being rounded: as long as
  \<open>n / 100\<close> is at most ten periods, \<open>10 * 2 pi\<close>, the state is finite, the position is
  within 0.001 of the cosine of the time of the state and of \<open>cos(n / 100)\<close>, and the time
  of the state is within \<open>1e-9\<close> of \<open>n / 100\<close>.
\<close>

theorem rk4_shm_accuracy:
  assumes "constructor shm_config \<sigma>0 = Inr w0" and "real n / 100 \<le> 10 * (2 * pi)"
  shows "let s = getState_value (foldl (exec h) w0 (replicate n (Step (lit 0.01))))
         in is_fin (st_y s) \<and> is_fin (st_t s)
          \<and> \<bar>val (st_y s) - cos (val (st_t s))\<bar> < 0.001
          \<and> \<bar>val (st_y s) - cos (real n / 100)\<bar> < 0.001
          \<and> \<bar>val (st_t s) - real n / 100\<bar> < 1 / 10 ^ 9"
  using shm_accuracy [OF assms, of h] unfolding Let_def by auto

theorem rk4_shm_accuracy_witness:
  "constructor shm_config [] = Inr ([default_state], shm_system)
   \<and> real 100 / 100 \<le> 10 * (2 * pi)
   \<and> (let s = getState_value (foldl (exec no_host) ([default_state], shm_system)
                 (replicate 100 (Step (lit 0.01))))
      in is_fin (st_y s) \<and> is_fin (st_t s)
         \<and> \<bar>val (st_y s) - cos (val (st_t s))\<bar> < 0.001
         \<and> \<bar>val (st_y s) - cos 1\<bar> < 0.001
         \<and> \<bar>val (st_t s) - 1\<bar> < 1 / 10 ^ 9)"
proof -
  have c: "constructor shm_config [] = Inr ([default_state], shm_system)"
    by (simp add: constructor_def shm_config_def shm_system_def default_state_def dflt_def Let_def)
  have p: "real 100 / 100 \<le> 10 * (2 * pi)"
    using pi_ge_two by simp
  show ?thesis
    using c p rk4_shm_accuracy [OF c p, of no_host] by simp
qed

end
